theory Spec2Isabelle
  imports Complex_Main
begin

section \<open>The coupled neutronics / heat-fluids driver\<close>

text \<open>
  A shallow embedding of \<^verbatim>\<open>CoupledDriver\<close> (coupled_driver.cpp) and of
  \<^verbatim>\<open>stream::ProcInfo\<close> (procinfo.h).

  Conventions of the embedding:
  \<^item> a C++ \<^verbatim>\<open>double\<close> is a \<^typ>\<open>real\<close>; rounding is modelled only where a
    property depends on it (the density update in double arithmetic below), and a
    computation whose IEEE result would be an infinity or a NaN is the error
    \<open>NonFinite\<close> where the program would go on with it, or \<open>None\<close> of
    \<^typ>\<open>real option\<close> where the value is only returned;
  \<^item> a one-dimensional \<^verbatim>\<open>xt::xtensor\<close> or \<^verbatim>\<open>std::vector\<close> is a list;
  \<^item> a \<^verbatim>\<open>std::map\<close> is an association list kept sorted by key; the member
    \<^verbatim>\<open>cell_to_elems_\<close>, whose type is declared in coupled_driver.h, is taken to be one
    (no property below depends on the order of its keys);
  \<^item> a throw, a failed \<^verbatim>\<open>Expects\<close>/\<^verbatim>\<open>Ensures\<close> and a write past the end of
    a buffer are values of \<open>error\<close>, returned as \<open>Inl\<close>;
  \<^item> the value of a variable that the source reads before writing it
    (\<^verbatim>\<open>gsl::index i;\<close>, \<^verbatim>\<open>double g_sum;\<close>, \<^verbatim>\<open>bool converged;\<close>) is an
    explicit argument or field, since the program does not determine it;
  \<^item> calls into a solver are recorded in a call log, in the order they are made;
  \<^item> a data member keeps its name without the trailing underscore (\<^verbatim>\<open>cells_\<close> is
    \<open>cells\<close>); the member \<^verbatim>\<open>size\<close> of ProcInfo is \<open>psize\<close>.
\<close>

subsection \<open>stream::ProcInfo\<close>

type_synonym MPI_Comm = int
type_synonym MPI_Group = int

text \<open>
  What \<^verbatim>\<open>mpi.h\<close> and the MPI library provide: the three null handles and the
  answers to the three queries the constructor makes.
\<close>

record mpi_env =
  MPI_COMM_NULL :: MPI_Comm
  MPI_GROUP_NULL :: MPI_Group
  MPI_PROC_NULL :: int
  MPI_Comm_group :: "MPI_Comm \<Rightarrow> MPI_Group"
  MPI_Comm_rank :: "MPI_Comm \<Rightarrow> int"
  MPI_Comm_size :: "MPI_Comm \<Rightarrow> int"

datatype mpi_call = Call_Comm_group MPI_Comm | Call_Comm_rank MPI_Comm | Call_Comm_size MPI_Comm

record ProcInfo =
  comm :: MPI_Comm
  group :: MPI_Group
  psize :: int
  rank :: int

text \<open>The default member initialisers of the class.\<close>

definition ProcInfo_default :: "mpi_env \<Rightarrow> ProcInfo" where
  "ProcInfo_default env =
     \<lparr>comm = MPI_COMM_NULL env, group = MPI_GROUP_NULL env, psize = 0, rank = MPI_PROC_NULL env\<rparr>"

text \<open>
  \<^verbatim>\<open>explicit ProcInfo(MPI_Comm comm)\<close>: the object built and the MPI queries made,
  in order.
\<close>

definition ProcInfo_ctor :: "mpi_env \<Rightarrow> MPI_Comm \<Rightarrow> ProcInfo \<times> mpi_call list" where
  "ProcInfo_ctor env c =
     (let p = (ProcInfo_default env)\<lparr>comm := c\<rparr> in
      if c \<noteq> MPI_COMM_NULL env
      then (p\<lparr>group := MPI_Comm_group env c, rank := MPI_Comm_rank env c, psize := MPI_Comm_size env c\<rparr>,
            [Call_Comm_group c, Call_Comm_rank c, Call_Comm_size c])
      else (p, []))"

subsection \<open>Errors and containers\<close>

datatype error =
    OutOfRange          \<comment> \<open>\<^verbatim>\<open>std::out_of_range\<close> thrown by \<^verbatim>\<open>.at()\<close>\<close>
  | ContractViolation   \<comment> \<open>a failed \<^verbatim>\<open>Expects\<close> or \<^verbatim>\<open>Ensures\<close>\<close>
  | BroadcastError      \<comment> \<open>xtensor operands whose shapes do not broadcast\<close>
  | BufferOverrun       \<comment> \<open>\<^verbatim>\<open>std::copy\<close> into a shorter destination\<close>
  | NonFinite           \<comment> \<open>an IEEE infinity or NaN, which a \<^typ>\<open>real\<close> cannot hold\<close>
  | SolverError         \<comment> \<open>\<^verbatim>\<open>err_chk\<close> on a non-zero return code, or a throw of a solver\<close>
  | MPIError            \<comment> \<open>a collective addressed to a rank that is not in the communicator\<close>

type_synonym CellHandle = int

text \<open>Sequencing: the first error ends the computation.\<close>

fun and_then :: "error + 'a \<Rightarrow> ('a \<Rightarrow> error + 'b) \<Rightarrow> error + 'b" where
  "and_then (Inl err) f = Inl err"
| "and_then (Inr x) f = f x"

definition vec_at :: "'a list \<Rightarrow> nat \<Rightarrow> error + 'a" where
  "vec_at xs i = (if i < length xs then Inr (xs ! i) else Inl OutOfRange)"

text \<open>\<^verbatim>\<open>xs.at(i) = v\<close>\<close>

definition vec_put :: "'a list \<Rightarrow> nat \<Rightarrow> 'a \<Rightarrow> error + 'a list" where
  "vec_put xs i v = (if i < length xs then Inr (xs[i := v]) else Inl OutOfRange)"

text \<open>\<^verbatim>\<open>m.at(k)\<close> on a map\<close>

definition map_at :: "(CellHandle \<times> 'v) list \<Rightarrow> CellHandle \<Rightarrow> error + 'v" where
  "map_at m k = (case map_of m k of None \<Rightarrow> Inl OutOfRange | Some v \<Rightarrow> Inr v)"

text \<open>The list stored under a key, or the empty list when the key is absent.\<close>

definition map_entry :: "(CellHandle \<times> 'a list) list \<Rightarrow> CellHandle \<Rightarrow> 'a list" where
  "map_entry m c = (case map_of m c of None \<Rightarrow> [] | Some es \<Rightarrow> es)"

text \<open>
  \<^verbatim>\<open>m[k]\<close> followed by a modification of the entry: a missing key is first inserted with
  the default value \<open>d\<close>, at its place in key order.
\<close>

fun map_modify :: "CellHandle \<Rightarrow> 'v \<Rightarrow> ('v \<Rightarrow> 'v) \<Rightarrow> (CellHandle \<times> 'v) list \<Rightarrow> (CellHandle \<times> 'v) list" where
  "map_modify c d f [] = [(c, f d)]"
| "map_modify c d f ((k, v) # m) =
     (if c = k then (k, f v) # m
      else if c < k then (c, f d) # (k, v) # m
      else (k, v) # map_modify c d f m)"

text \<open>
  \<^verbatim>\<open>std::copy(src.begin(), src.end(), dst.begin())\<close>: the first elements of the
  destination are overwritten; a destination that is too short is written past its end.
\<close>

definition std_copy :: "'a list \<Rightarrow> 'a list \<Rightarrow> error + 'a list" where
  "std_copy src dst =
     (if length src \<le> length dst then Inr (src @ drop (length src) dst) else Inl BufferOverrun)"

text \<open>
  An elementwise xtensor expression of two one-dimensional operands, assigned to a
  container: equal lengths combine pointwise, an operand of length one is broadcast, any
  other pair of shapes throws.
\<close>

definition xt_zip :: "(real \<Rightarrow> real \<Rightarrow> real) \<Rightarrow> real list \<Rightarrow> real list \<Rightarrow> error + real list" where
  "xt_zip f xs ys =
     (if length xs = length ys then Inr (map2 f xs ys)
      else if length xs = 1 then Inr (map (f (hd xs)) ys)
      else if length ys = 1 then Inr (map (\<lambda>x. f x (hd ys)) xs)
      else Inl BroadcastError)"

subsection \<open>The state of a CoupledDriver on one process\<close>

record CoupledDriver =
  heat_active :: bool   \<comment> \<open>\<^verbatim>\<open>get_heat_driver().active()\<close> on this process\<close>
  alpha :: real
  alpha_T :: real
  alpha_rho :: real
  i_picard :: int
  cells :: "CellHandle list"
  cell_to_elems :: "(CellHandle \<times> nat list) list"
  elem_to_cell :: "CellHandle list"
  elem_volumes :: "real list"
  cell_volumes :: "real list"
  cell_fluid_mask :: "int list"
  cell_temperatures :: "real list"
  cell_temperatures_prev :: "real list"
  cell_densities :: "real list"
  cell_densities_prev :: "real list"
  cell_heat :: "real list"
  cell_heat_prev :: "real list"

subsection \<open>Relaxation\<close>

text \<open>
  The relaxation written out in \<^verbatim>\<open>update_heat_source\<close>, \<^verbatim>\<open>update_temperature\<close> and
  \<^verbatim>\<open>update_density\<close>. The sentinel \<^verbatim>\<open>ROBBINS_MONRO\<close> is declared in
  coupled_driver.h, so its value is the argument \<open>rm\<close>. \<open>ip\<close> is \<^verbatim>\<open>i_picard_\<close>;
  inside the Picard loop \<open>ip + 1\<close> does not overflow an \<^verbatim>\<open>int\<close>, since
  \<open>ip < max_picard_iter_\<close>.
\<close>

definition relax_field :: "real \<Rightarrow> real \<Rightarrow> int \<Rightarrow> real list \<Rightarrow> real list \<Rightarrow> error + real list" where
  "relax_field rm a ip x x_prev =
     (if a = rm then
        (let n = ip + 1 in
         if n = 0 then Inl NonFinite
         else xt_zip (\<lambda>v p. v / real_of_int n + (1 - 1 / real_of_int n) * p) x x_prev)
      else xt_zip (\<lambda>v p. a * v + (1 - a) * p) x x_prev)"

subsection \<open>Volume averages over the elements of a cell\<close>

text \<open>
  The inner loop of step 2: \<open>q\<close> is the element field (temperature or density), \<open>V\<close> is
  \<^verbatim>\<open>elem_volumes_\<close>; the accumulators are the weighted sum and the total volume.
\<close>

fun sum_elems :: "real list \<Rightarrow> real list \<Rightarrow> nat list \<Rightarrow> real \<times> real \<Rightarrow> error + real \<times> real" where
  "sum_elems q V [] acc = Inr acc"
| "sum_elems q V (e # es) (avg, total_vol) =
     and_then (vec_at q e) (\<lambda>qe.
     and_then (vec_at V e) (\<lambda>ve.
     sum_elems q V es (avg + qe * ve, total_vol + ve)))"

text \<open>
  \<^verbatim>\<open>avg /= total; Ensures(avg > 0.0)\<close>. A zero total volume gives NaN or a negative
  infinity, which fail the check, or a positive infinity, which passes it.
\<close>

definition cell_average :: "real list \<Rightarrow> real list \<Rightarrow> nat list \<Rightarrow> error + real" where
  "cell_average q V es =
     and_then (sum_elems q V es (0, 0)) (\<lambda>(avg, total_vol).
       if total_vol = 0 then (if avg > 0 then Inl NonFinite else Inl ContractViolation)
       else if avg / total_vol > 0 then Inr (avg / total_vol) else Inl ContractViolation)"

subsection \<open>update_temperature\<close>

text \<open>Step 2, the loop over \<open>i\<close> from 0 to \<^verbatim>\<open>cells_.size()\<close>.\<close>

fun average_temperatures :: "CoupledDriver \<Rightarrow> real list \<Rightarrow> nat list \<Rightarrow> real list \<Rightarrow> error + real list" where
  "average_temperatures s elem_temperatures [] T = Inr T"
| "average_temperatures s elem_temperatures (i # js) T =
     and_then (vec_at (cells s) i) (\<lambda>c.
     and_then (map_at (cell_to_elems s) c) (\<lambda>es.
     and_then (cell_average elem_temperatures (elem_volumes s) es) (\<lambda>avg_temp.
     and_then (vec_put T i avg_temp) (\<lambda>T'.
     average_temperatures s elem_temperatures js T'))))"

text \<open>
  Steps 1 and 2 on one process: the copy of the current iterate into the previous one,
  the volume averages and the relaxation. \<open>elem_temperatures\<close> is what
  \<^verbatim>\<open>heat.temperature_local()\<close> returns.
\<close>

definition update_temperature_local :: "real \<Rightarrow> bool \<Rightarrow> real list \<Rightarrow> CoupledDriver \<Rightarrow> error + CoupledDriver" where
  "update_temperature_local rm relax elem_temperatures s =
     (if \<not> heat_active s then Inr s else
      and_then (if relax then std_copy (cell_temperatures s) (cell_temperatures_prev s)
                else Inr (cell_temperatures_prev s)) (\<lambda>prev.
      and_then (average_temperatures s elem_temperatures [0..<length (cells s)] (cell_temperatures s)) (\<lambda>raw.
      and_then (if relax then relax_field rm (alpha_T s) (i_picard s) raw prev else Inr raw) (\<lambda>T.
      Inr (s\<lparr>cell_temperatures := T, cell_temperatures_prev := prev\<rparr>)))))"

text \<open>
  Steps 3 and 4, as the neutronics processes run them. For one heat rank, the arrays
  received from it are accumulated into \<^verbatim>\<open>T_dot_V\<close>:
  \<^verbatim>\<open>T_dot_V[cells_.at(i)] += T * V\<close>.
\<close>

fun accumulate_cells :: "CellHandle list \<Rightarrow> real list \<Rightarrow> real list \<Rightarrow> nat list \<Rightarrow>
    (CellHandle \<times> real) list \<Rightarrow> error + (CellHandle \<times> real) list" where
  "accumulate_cells cs T V [] T_dot_V = Inr T_dot_V"
| "accumulate_cells cs T V (i # js) T_dot_V =
     and_then (vec_at T i) (\<lambda>t.
     and_then (vec_at V i) (\<lambda>v.
     and_then (vec_at cs i) (\<lambda>c.
     accumulate_cells cs T V js (map_modify c 0 (\<lambda>x. x + t * v) T_dot_V))))"

text \<open>The loop over \<^verbatim>\<open>heat_ranks_\<close>: \<open>hs\<close> are the states of the heat ranks, in that order.\<close>

fun accumulate_ranks :: "CoupledDriver list \<Rightarrow> (CellHandle \<times> real) list \<Rightarrow> error + (CellHandle \<times> real) list" where
  "accumulate_ranks [] T_dot_V = Inr T_dot_V"
| "accumulate_ranks (h # hs) T_dot_V =
     and_then (accumulate_cells (cells h) (cell_temperatures h) (cell_volumes h)
                 [0..<length (cells h)] T_dot_V) (\<lambda>T_dot_V'.
     accumulate_ranks hs T_dot_V')"

text \<open>
  Step 4: the calls \<^verbatim>\<open>neutronics.set_temperature(cell, T_dot_V / get_volume(cell))\<close>, in
  key order. \<open>get_volume\<close> is the neutronics solver's.
\<close>

fun set_temperatures :: "(CellHandle \<Rightarrow> real) \<Rightarrow> (CellHandle \<times> real) list \<Rightarrow> error + (CellHandle \<times> real) list" where
  "set_temperatures get_volume [] = Inr []"
| "set_temperatures get_volume ((c, tv) # kvs) =
     (if get_volume c = 0 then Inl NonFinite
      else and_then (set_temperatures get_volume kvs) (\<lambda>calls.
           Inr ((c, tv / get_volume c) # calls)))"

text \<open>Steps 1 and 2 on every heat rank, each with its solver's element temperatures.\<close>

fun update_temperature_ranks :: "real \<Rightarrow> bool \<Rightarrow> (CoupledDriver \<times> real list) list \<Rightarrow> error + CoupledDriver list" where
  "update_temperature_ranks rm relax [] = Inr []"
| "update_temperature_ranks rm relax ((h, elem_temperatures) # rest) =
     and_then (update_temperature_local rm relax elem_temperatures h) (\<lambda>h'.
     and_then (update_temperature_ranks rm relax rest) (\<lambda>hs.
     Inr (h' # hs)))"

text \<open>
  The whole of \<^verbatim>\<open>update_temperature\<close>: the new states of the heat ranks and the
  \<^verbatim>\<open>set_temperature\<close> calls of a neutronics process. A heat rank only sends in step 3,
  so its arrays are as steps 1 and 2 leave them.
\<close>

definition update_temperature :: "real \<Rightarrow> (CellHandle \<Rightarrow> real) \<Rightarrow> bool \<Rightarrow> (CoupledDriver \<times> real list) list \<Rightarrow>
    error + CoupledDriver list \<times> (CellHandle \<times> real) list" where
  "update_temperature rm get_volume relax heat =
     and_then (update_temperature_ranks rm relax heat) (\<lambda>hs.
     and_then (accumulate_ranks hs []) (\<lambda>T_dot_V.
     and_then (set_temperatures get_volume T_dot_V) (\<lambda>calls.
     Inr (hs, calls))))"

subsection \<open>update_density\<close>

text \<open>Step 2, the loop over \<open>i\<close>: only a cell whose mask is 1 is averaged.\<close>

fun average_densities :: "CoupledDriver \<Rightarrow> real list \<Rightarrow> nat list \<Rightarrow> real list \<Rightarrow> error + real list" where
  "average_densities s elem_densities [] rho = Inr rho"
| "average_densities s elem_densities (i # js) rho =
     and_then (vec_at (cell_fluid_mask s) i) (\<lambda>m.
     if m = 1 then
       and_then (vec_at (cells s) i) (\<lambda>c.
       and_then (map_at (cell_to_elems s) c) (\<lambda>es.
       and_then (cell_average elem_densities (elem_volumes s) es) (\<lambda>avg_rho.
       and_then (vec_put rho i avg_rho) (\<lambda>rho'.
       average_densities s elem_densities js rho'))))
     else average_densities s elem_densities js rho)"

text \<open>
  Steps 1 and 2 on one process. Step 1 is
  \<^verbatim>\<open>std::copy(cell_densities_.cbegin(), cell_densities_.cend(), cell_densities_.begin())\<close>:
  source and destination are both \<^verbatim>\<open>cell_densities_\<close>, so the array is copied onto
  itself. \<open>elem_densities\<close> is what \<^verbatim>\<open>heat.density_local()\<close> returns.
\<close>

definition update_density_local :: "real \<Rightarrow> bool \<Rightarrow> real list \<Rightarrow> CoupledDriver \<Rightarrow> error + CoupledDriver" where
  "update_density_local rm relax elem_densities s =
     (if \<not> heat_active s then Inr s else
      and_then (if relax then std_copy (cell_densities s) (cell_densities s)
                else Inr (cell_densities s)) (\<lambda>cur.
      and_then (average_densities s elem_densities [0..<length (cells s)] cur) (\<lambda>raw.
      and_then (if relax then relax_field rm (alpha_rho s) (i_picard s) raw (cell_densities_prev s)
                else Inr raw) (\<lambda>rho.
      Inr (s\<lparr>cell_densities := rho\<rparr>)))))"

subsection \<open>Double arithmetic\<close>

text \<open>
  Rounding of a real number to the nearest IEEE binary64 value, ties to the even
  significand. The exponent is not bounded: overflow and subnormal numbers are not
  modelled.
\<close>

definition round_even :: "real \<Rightarrow> int" where
  "round_even r =
     (let f = \<lfloor>r\<rfloor>; d = r - of_int f in
      if d < 1/2 then f else if 1/2 < d then f + 1 else if even f then f else f + 1)"

definition round_double :: "real \<Rightarrow> real" where
  "round_double x =
     (if x = 0 then 0
      else (let e = \<lfloor>log 2 \<bar>x\<bar>\<rfloor> - 52
            in of_int (round_even (x / 2 powr of_int e)) * 2 powr of_int e))"

text \<open>The double nearest to 0.1, which is what \<^verbatim>\<open>as_double()\<close> gives for the text 0.1.\<close>

definition double_tenth :: real where
  "double_tenth = 3602879701896397 / 36028797018963968"

subsection \<open>update_density in double arithmetic\<close>

text \<open>
  Steps 1 and 2 of \<^verbatim>\<open>update_density\<close> once more, with the result of every arithmetic
  operation passed through \<open>rnd\<close>, in the order the expressions are written. With
  \<open>rnd = round_double\<close> this is the arithmetic of the program (each operation rounded
  by itself, no fused multiply-add); with the identity it is \<open>update_density_local\<close>.

  The two relaxation expressions, for one cell. \<^verbatim>\<open>1.0 - alpha_rho_\<close> and
  \<^verbatim>\<open>1. - 1. / n\<close> are computed in double before they multiply the previous value; the
  conversion of the \<^verbatim>\<open>int n\<close> is exact.
\<close>

definition fixed_blend :: "(real \<Rightarrow> real) \<Rightarrow> real \<Rightarrow> real \<Rightarrow> real \<Rightarrow> real" where
  "fixed_blend rnd a v p = rnd (rnd (a * v) + rnd (rnd (1 - a) * p))"

definition robbins_monro_blend :: "(real \<Rightarrow> real) \<Rightarrow> int \<Rightarrow> real \<Rightarrow> real \<Rightarrow> real" where
  "robbins_monro_blend rnd n v p =
     rnd (rnd (v / real_of_int n) + rnd (rnd (1 - rnd (1 / real_of_int n)) * p))"

definition relax_field_rnd :: "(real \<Rightarrow> real) \<Rightarrow> real \<Rightarrow> real \<Rightarrow> int \<Rightarrow> real list \<Rightarrow> real list \<Rightarrow> error + real list" where
  "relax_field_rnd rnd rm a ip x x_prev =
     (if a = rm then
        (let n = ip + 1 in
         if n = 0 then Inl NonFinite
         else xt_zip (robbins_monro_blend rnd n) x x_prev)
      else xt_zip (fixed_blend rnd a) x x_prev)"

fun sum_elems_rnd :: "(real \<Rightarrow> real) \<Rightarrow> real list \<Rightarrow> real list \<Rightarrow> nat list \<Rightarrow> real \<times> real \<Rightarrow> error + real \<times> real" where
  "sum_elems_rnd rnd q V [] acc = Inr acc"
| "sum_elems_rnd rnd q V (e # es) (avg, total_vol) =
     and_then (vec_at q e) (\<lambda>qe.
     and_then (vec_at V e) (\<lambda>ve.
     sum_elems_rnd rnd q V es (rnd (avg + rnd (qe * ve)), rnd (total_vol + ve))))"

definition cell_average_rnd :: "(real \<Rightarrow> real) \<Rightarrow> real list \<Rightarrow> real list \<Rightarrow> nat list \<Rightarrow> error + real" where
  "cell_average_rnd rnd q V es =
     and_then (sum_elems_rnd rnd q V es (0, 0)) (\<lambda>(avg, total_vol).
       if total_vol = 0 then (if avg > 0 then Inl NonFinite else Inl ContractViolation)
       else if rnd (avg / total_vol) > 0 then Inr (rnd (avg / total_vol)) else Inl ContractViolation)"

fun average_densities_rnd :: "(real \<Rightarrow> real) \<Rightarrow> CoupledDriver \<Rightarrow> real list \<Rightarrow> nat list \<Rightarrow> real list \<Rightarrow> error + real list" where
  "average_densities_rnd rnd s elem_densities [] rho = Inr rho"
| "average_densities_rnd rnd s elem_densities (i # js) rho =
     and_then (vec_at (cell_fluid_mask s) i) (\<lambda>m.
     if m = 1 then
       and_then (vec_at (cells s) i) (\<lambda>c.
       and_then (map_at (cell_to_elems s) c) (\<lambda>es.
       and_then (cell_average_rnd rnd elem_densities (elem_volumes s) es) (\<lambda>avg_rho.
       and_then (vec_put rho i avg_rho) (\<lambda>rho'.
       average_densities_rnd rnd s elem_densities js rho'))))
     else average_densities_rnd rnd s elem_densities js rho)"

definition update_density_local_rnd :: "(real \<Rightarrow> real) \<Rightarrow> real \<Rightarrow> bool \<Rightarrow> real list \<Rightarrow> CoupledDriver \<Rightarrow> error + CoupledDriver" where
  "update_density_local_rnd rnd rm relax elem_densities s =
     (if \<not> heat_active s then Inr s else
      and_then (if relax then std_copy (cell_densities s) (cell_densities s)
                else Inr (cell_densities s)) (\<lambda>cur.
      and_then (average_densities_rnd rnd s elem_densities [0..<length (cells s)] cur) (\<lambda>raw.
      and_then (if relax then relax_field_rnd rnd rm (alpha_rho s) (i_picard s) raw (cell_densities_prev s)
                else Inr raw) (\<lambda>rho.
      Inr (s\<lparr>cell_densities := rho\<rparr>)))))"

text \<open>
  The end of \<^verbatim>\<open>init_densities\<close>: on a heat-active process the densities are copied into
  \<^verbatim>\<open>cell_densities_prev_\<close>.
\<close>

definition init_densities_prev :: "CoupledDriver \<Rightarrow> error + CoupledDriver" where
  "init_densities_prev s =
     (if heat_active s
      then and_then (std_copy (cell_densities s) (cell_densities_prev s)) (\<lambda>prev.
           Inr (s\<lparr>cell_densities_prev := prev\<rparr>))
      else Inr s)"

subsection \<open>update_heat_source\<close>

text \<open>
  The calls \<^verbatim>\<open>err_chk(heat.set_heat_source_at(e, cell_heat_.at(i)), ...)\<close> for the
  elements of one cell. \<open>set_heat_source_at\<close> gives the solver's return code; a non-zero
  code throws.
\<close>

fun set_heat_source_elems :: "(nat \<Rightarrow> real \<Rightarrow> int) \<Rightarrow> CoupledDriver \<Rightarrow> nat \<Rightarrow> nat list \<Rightarrow>
    (nat \<times> real) list \<Rightarrow> error + (nat \<times> real) list" where
  "set_heat_source_elems set_heat_source_at s i [] calls = Inr calls"
| "set_heat_source_elems set_heat_source_at s i (e # es) calls =
     and_then (vec_at (cell_heat s) i) (\<lambda>h.
     if set_heat_source_at e h \<noteq> 0 then Inl SolverError
     else set_heat_source_elems set_heat_source_at s i es (calls @ [(e, h)]))"

text \<open>
  \<^verbatim>\<open>for (gsl::index i; i < cells_.size(); ++i)\<close>: the loop variable has no initialiser,
  so the loop is entered with whatever value \<open>i\<close> holds. The comparison converts \<open>i\<close>
  to the unsigned type of \<^verbatim>\<open>size()\<close>, so the value is a natural number here.
\<close>

function set_heat_source_cells :: "(nat \<Rightarrow> real \<Rightarrow> int) \<Rightarrow> CoupledDriver \<Rightarrow> nat \<Rightarrow>
    (nat \<times> real) list \<Rightarrow> error + (nat \<times> real) list" where
  "set_heat_source_cells set_heat_source_at s i calls =
     (if i < length (cells s) then
        and_then (vec_at (cells s) i) (\<lambda>c.
        and_then (map_at (cell_to_elems s) c) (\<lambda>es.
        and_then (set_heat_source_elems set_heat_source_at s i es calls) (\<lambda>calls'.
        set_heat_source_cells set_heat_source_at s (Suc i) calls')))
      else Inr calls)"
  by pat_completeness auto
termination
  by (relation "measure (\<lambda>(f, s, i, calls). length (cells s) - i)") auto

text \<open>
  \<^verbatim>\<open>update_heat_source\<close> on one process. The heat source that the neutronics root
  computes is held in a local variable that nothing reads, and the loop over
  \<^verbatim>\<open>heat_ranks_\<close> has an empty body (its statements are commented out), so
  \<^verbatim>\<open>cell_heat_\<close> is only ever relaxed against its own copy. \<open>i0\<close> is the value the
  uninitialised loop variable holds.
\<close>

definition update_heat_source :: "real \<Rightarrow> (nat \<Rightarrow> real \<Rightarrow> int) \<Rightarrow> nat \<Rightarrow> bool \<Rightarrow> CoupledDriver \<Rightarrow>
    error + CoupledDriver \<times> (nat \<times> real) list" where
  "update_heat_source rm set_heat_source_at i0 relax s =
     and_then (if relax \<and> heat_active s then std_copy (cell_heat s) (cell_heat_prev s)
               else Inr (cell_heat_prev s)) (\<lambda>prev.
     and_then (if relax \<and> heat_active s then relax_field rm (alpha s) (i_picard s) (cell_heat s) prev
               else Inr (cell_heat s)) (\<lambda>h.
     let s' = s\<lparr>cell_heat := h, cell_heat_prev := prev\<rparr> in
     if heat_active s
     then and_then (set_heat_source_cells set_heat_source_at s' i0 []) (\<lambda>calls. Inr (s', calls))
     else Inr (s', [])))"

text \<open>
  The application loop as it reads when the loop variable starts at 0: for each cell in
  order, one call per element with the cell's heat source.
\<close>

definition heat_source_calls :: "CoupledDriver \<Rightarrow> (nat \<times> real) list" where
  "heat_source_calls s =
     concat (map (\<lambda>i. map (\<lambda>e. (e, cell_heat s ! i)) (map_entry (cell_to_elems s) (cells s ! i)))
                 [0..<length (cells s)])"

subsection \<open>init_mappings\<close>

text \<open>
  The loop \<^verbatim>\<open>cell_to_elems_[elem_to_cell_[e]].push_back(e)\<close> over the elements \<open>e\<close>.
\<close>

fun invert_elems :: "CellHandle list \<Rightarrow> nat list \<Rightarrow> (CellHandle \<times> nat list) list \<Rightarrow> (CellHandle \<times> nat list) list" where
  "invert_elems e2c [] m = m"
| "invert_elems e2c (e # es) m = invert_elems e2c es (map_modify (e2c ! e) [] (\<lambda>v. v @ [e]) m)"

text \<open>
  \<^verbatim>\<open>init_mappings\<close> as the process of rank \<open>me\<close> runs it. In the iteration for
  \<open>heat_rank\<close> the neutronics root resolves that rank's centroids (\<open>find_cells\<close> is the
  neutronics solver's \<^verbatim>\<open>find\<close>, which may throw: \<open>None\<close>) and sends the result to
  \<open>heat_rank\<close>, which inverts it and appends the keys of the map to \<^verbatim>\<open>cells_\<close>.
  \<open>centroid_local r\<close> is what \<^verbatim>\<open>heat.centroid_local()\<close> returns on rank \<open>r\<close>.
\<close>

fun init_mappings :: "('p list \<Rightarrow> CellHandle list option) \<Rightarrow> (int \<Rightarrow> 'p list) \<Rightarrow> int \<Rightarrow> int \<Rightarrow>
    int list \<Rightarrow> CoupledDriver \<Rightarrow> error + CoupledDriver" where
  "init_mappings find_cells centroid_local neutronics_root me [] s = Inr s"
| "init_mappings find_cells centroid_local neutronics_root me (heat_rank # heat_ranks) s =
     (case find_cells (centroid_local heat_rank) of
        None \<Rightarrow> Inl SolverError
      | Some m \<Rightarrow>
          (let s1 = (if me = neutronics_root \<or> me = heat_rank then s\<lparr>elem_to_cell := m\<rparr> else s);
               s2 = (if me = heat_rank
                     then (let c2e = invert_elems (elem_to_cell s1) [0..<length (elem_to_cell s1)]
                                       (cell_to_elems s1)
                           in s1\<lparr>cell_to_elems := c2e, cells := cells s1 @ map fst c2e\<rparr>)
                     else s1)
           in init_mappings find_cells centroid_local neutronics_root me heat_ranks s2))"

subsection \<open>The relaxation selectors of the constructor\<close>

text \<open>
  What the lambda \<^verbatim>\<open>set_alpha\<close> reads of a pugixml node: \<open>None\<close> is an absent node,
  \<open>Some (s, d)\<close> a node whose \<^verbatim>\<open>child_value()\<close> is \<open>s\<close> and whose
  \<^verbatim>\<open>text().as_double()\<close> is \<open>d\<close>.
\<close>

type_synonym xml_node = "(string \<times> real) option"

definition set_alpha :: "real \<Rightarrow> xml_node \<Rightarrow> real \<Rightarrow> error + real" where
  "set_alpha rm node a =
     (case node of
        None \<Rightarrow> Inr a
      | Some (s, d) \<Rightarrow>
          if s = ''robbins-monro'' then Inr rm
          else if d > 0 \<and> d \<le> 1 then Inr d else Inl ContractViolation)"

record coupling_node =
  alpha_node :: xml_node
  alpha_T_node :: xml_node
  alpha_rho_node :: xml_node

text \<open>The three calls of \<^verbatim>\<open>set_alpha\<close> in the constructor, in order.\<close>

definition set_alphas :: "real \<Rightarrow> coupling_node \<Rightarrow> CoupledDriver \<Rightarrow> error + CoupledDriver" where
  "set_alphas rm coup_node s =
     and_then (set_alpha rm (alpha_node coup_node) (alpha s)) (\<lambda>a.
     and_then (set_alpha rm (alpha_T_node coup_node) (alpha_T s)) (\<lambda>aT.
     and_then (set_alpha rm (alpha_rho_node coup_node) (alpha_rho s)) (\<lambda>arho.
     Inr (s\<lparr>alpha := a, alpha_T := aT, alpha_rho := arho\<rparr>))))"

text \<open>A selector that is a fixed numeric coefficient outside the interval (0, 1].\<close>

definition fixed_outside_unit :: "xml_node \<Rightarrow> bool" where
  "fixed_outside_unit node =
     (case node of None \<Rightarrow> False | Some (s, d) \<Rightarrow> s \<noteq> ''robbins-monro'' \<and> \<not> (0 < d \<and> d \<le> 1))"

subsection \<open>temperature_norm and is_converged\<close>

datatype Norm = L1 | L2 | LINF

text \<open>
  One process of the global communicator \<^verbatim>\<open>comm_\<close>; its rank there is its position in
  the list of processes. \<open>heat_comm_rank\<close> is its rank in \<^verbatim>\<open>heat.comm_\<close>. \<open>g_sum\<close> and
  \<open>converged\<close> are what the local variables of these names hold before anything is
  assigned to them; a \<open>g_sum\<close> whose bits are no finite number is \<open>None\<close>.
\<close>

record process =
  state :: CoupledDriver
  heat_comm_rank :: int
  g_sum :: "real option"
  converged :: bool

text \<open>
  The local term of a heat-active process. \<open>lowest\<close> is the value \<^verbatim>\<open>xt::amax\<close> starts
  from, which matters for an empty array only.
\<close>

definition local_term :: "Norm \<Rightarrow> real \<Rightarrow> CoupledDriver \<Rightarrow> error + real" where
  "local_term nrm lowest s =
     and_then (xt_zip (\<lambda>t p. t - p) (cell_temperatures s) (cell_temperatures_prev s)) (\<lambda>d.
     Inr (case nrm of
            L1 \<Rightarrow> sum_list (map abs d)
          | L2 \<Rightarrow> sum_list (map (\<lambda>x. x * x) d)
          | LINF \<Rightarrow> fold max (map abs d) lowest))"

text \<open>The local terms of the processes of \<^verbatim>\<open>heat.comm_\<close>, in rank order of \<^verbatim>\<open>comm_\<close>.\<close>

fun local_terms :: "Norm \<Rightarrow> real \<Rightarrow> process list \<Rightarrow> error + real list" where
  "local_terms nrm lowest [] = Inr []"
| "local_terms nrm lowest (p # ps) =
     (if heat_active (state p)
      then and_then (local_term nrm lowest (state p)) (\<lambda>x.
           and_then (local_terms nrm lowest ps) (\<lambda>xs. Inr (x # xs)))
      else local_terms nrm lowest ps)"

text \<open>
  \<^verbatim>\<open>sqrt\<close> of the C library: the square root of a negative number is a NaN, and that of
  a NaN or an infinity is a NaN or the positive infinity.
\<close>

definition c_sqrt :: "real option \<Rightarrow> real option" where
  "c_sqrt x = (case x of None \<Rightarrow> None | Some v \<Rightarrow> if v < 0 then None else Some (sqrt v))"

text \<open>\<^verbatim>\<open>norm < epsilon_\<close>: a NaN and the positive infinity compare false.\<close>

definition c_less :: "real option \<Rightarrow> real \<Rightarrow> bool" where
  "c_less x y = (case x of None \<Rightarrow> False | Some v \<Rightarrow> v < y)"

text \<open>What \<^verbatim>\<open>MPI_Reduce\<close> delivers at rank 0 of \<^verbatim>\<open>heat.comm_\<close>.\<close>

definition mpi_reduce :: "Norm \<Rightarrow> real list \<Rightarrow> real" where
  "mpi_reduce nrm terms =
     (case nrm of
        LINF \<Rightarrow> (case terms of [] \<Rightarrow> 0 | x # xs \<Rightarrow> fold max xs x)
      | _ \<Rightarrow> sum_list terms)"

text \<open>
  The value \<^verbatim>\<open>temperature_norm\<close> returns on each process. The receive buffer of the
  reduction is written at rank 0 of \<^verbatim>\<open>heat.comm_\<close> only: elsewhere \<^verbatim>\<open>tnorm\<close> keeps its
  initial 0 and \<^verbatim>\<open>g_sum\<close> its initial contents. The statement
  \<^verbatim>\<open>tnorm = sqrt(g_sum)\<close> is run by every heat-active process.
\<close>

definition temperature_norm :: "Norm \<Rightarrow> real \<Rightarrow> process list \<Rightarrow> error + real option list" where
  "temperature_norm nrm lowest ps =
     and_then (local_terms nrm lowest ps) (\<lambda>terms.
     Inr (map (\<lambda>p.
       if heat_active (state p) then
         (case nrm of
            L1 \<Rightarrow> Some (if heat_comm_rank p = 0 then mpi_reduce L1 terms else 0)
          | L2 \<Rightarrow> c_sqrt (if heat_comm_rank p = 0 then Some (mpi_reduce L2 terms) else g_sum p)
          | LINF \<Rightarrow> Some (if heat_comm_rank p = 0 then mpi_reduce LINF terms else 0))
       else Some 0) ps))"

text \<open>
  Modelled from the spec: \<^verbatim>\<open>Comm::is_root\<close> is declared in comm.h, which is not among
  the sources. Each group has one designated root; it is taken to be the group's rank 0,
  the rank the reductions above deliver to.
\<close>

definition is_root :: "process \<Rightarrow> bool" where
  "is_root p = (heat_comm_rank p = 0)"

text \<open>
  Modelled from the spec: \<^verbatim>\<open>Comm::broadcast\<close> is declared in comm.h, which is not among
  the sources. A broadcast gives every process of the communicator the value held by the
  process whose rank is named in the call; \<open>vals\<close> are the values held, in rank order.
\<close>

definition broadcast :: "'a list \<Rightarrow> int \<Rightarrow> error + 'a list" where
  "broadcast vals root_rank =
     (if 0 \<le> root_rank \<and> nat root_rank < length vals
      then Inr (replicate (length vals) (vals ! nat root_rank))
      else Inl MPIError)"

text \<open>
  \<^verbatim>\<open>heat_root_\<close>, as the constructor computes it: each process contributes its rank in
  \<^verbatim>\<open>comm_\<close> if it is the root of the heat group and -1 otherwise, and
  \<^verbatim>\<open>MPI_Allreduce\<close> takes the maximum.
\<close>

definition heat_root :: "process list \<Rightarrow> int" where
  "heat_root ps =
     fold max (map2 (\<lambda>r p. if is_root p then int r else - 1) [0..<length ps] ps) (- 1)"

text \<open>
  \<^verbatim>\<open>is_converged\<close>: the value returned on each process. Only the process whose rank is
  \<^verbatim>\<open>heat_root_\<close> assigns \<^verbatim>\<open>converged\<close> before the broadcast.
\<close>

definition is_converged :: "Norm \<Rightarrow> real \<Rightarrow> real \<Rightarrow> process list \<Rightarrow> error + bool list" where
  "is_converged nrm lowest epsilon ps =
     and_then (temperature_norm nrm lowest ps) (\<lambda>norms.
     let local = map (\<lambda>r. if int r = heat_root ps then c_less (norms ! r) epsilon
                           else converged (ps ! r)) [0..<length ps]
     in broadcast local (heat_root ps))"

text \<open>
  The L2 norm as the specification words it: the local sums are sum-reduced to the heat
  root and the square root is taken at the root only, so every other process returns
  the initial value 0 of \<^verbatim>\<open>tnorm\<close>.
\<close>

definition temperature_norm_L2_spec :: "real \<Rightarrow> process list \<Rightarrow> error + real option list" where
  "temperature_norm_L2_spec lowest ps =
     and_then (local_terms L2 lowest ps) (\<lambda>terms.
     Inr (map (\<lambda>p. if heat_active (state p) \<and> heat_comm_rank p = 0
                   then c_sqrt (Some (sum_list terms)) else Some 0) ps))"

subsection \<open>Example states\<close>

text \<open>A heat rank with a fluid cell 7 and a solid cell 9, one element each.\<close>

definition two_cell_state :: CoupledDriver where
  "two_cell_state =
     \<lparr>heat_active = True, alpha = 1, alpha_T = 1/2, alpha_rho = 1/2, i_picard = 0,
      cells = [7, 9], cell_to_elems = [(7, [0]), (9, [1])], elem_to_cell = [7, 9],
      elem_volumes = [2, 3], cell_volumes = [2, 3], cell_fluid_mask = [1, 0],
      cell_temperatures = [300, 500], cell_temperatures_prev = [290, 480],
      cell_densities = [7/10, 8], cell_densities_prev = [1/2, 8],
      cell_heat = [5, 6], cell_heat_prev = [5, 6]\<rparr>"

text \<open>A heat rank with one solid cell.\<close>

definition solid_cell_state :: CoupledDriver where
  "solid_cell_state =
     \<lparr>heat_active = True, alpha = 1, alpha_T = 1, alpha_rho = 1/2, i_picard = 0,
      cells = [7], cell_to_elems = [(7, [0])], elem_to_cell = [7],
      elem_volumes = [1], cell_volumes = [1], cell_fluid_mask = [0],
      cell_temperatures = [300], cell_temperatures_prev = [300],
      cell_densities = [1], cell_densities_prev = [3],
      cell_heat = [5], cell_heat_prev = [5]\<rparr>"

text \<open>
  A heat rank with one solid cell of density 10.5 and \<open>alpha_rho\<close> the double 0.1, before
  \<^verbatim>\<open>init_densities\<close> has filled \<^verbatim>\<open>cell_densities_prev_\<close>.
\<close>

definition solid_double_state :: CoupledDriver where
  "solid_double_state =
     \<lparr>heat_active = True, alpha = 1, alpha_T = 1, alpha_rho = double_tenth, i_picard = 0,
      cells = [7], cell_to_elems = [(7, [0])], elem_to_cell = [7],
      elem_volumes = [1], cell_volumes = [1], cell_fluid_mask = [0],
      cell_temperatures = [300], cell_temperatures_prev = [300],
      cell_densities = [21/2], cell_densities_prev = [0],
      cell_heat = [5], cell_heat_prev = [5]\<rparr>"

text \<open>A heat rank with one fluid cell: current density 2, previous density 1.\<close>

definition fluid_cell_state :: CoupledDriver where
  "fluid_cell_state =
     \<lparr>heat_active = True, alpha = 1, alpha_T = 1, alpha_rho = 1/2, i_picard = 0,
      cells = [7], cell_to_elems = [(7, [0])], elem_to_cell = [7],
      elem_volumes = [1], cell_volumes = [1], cell_fluid_mask = [1],
      cell_temperatures = [300], cell_temperatures_prev = [300],
      cell_densities = [2], cell_densities_prev = [1],
      cell_heat = [5], cell_heat_prev = [5]\<rparr>"

text \<open>
  The two heat ranks of the end-to-end scenario: rank A owns two elements of volume 1 in
  cell 1, rank B two elements of volume 2 in cell 2; the current cell temperatures are
  140 and 340, and \<open>alpha_T\<close> is 0.5.
\<close>

definition rank_A :: CoupledDriver where
  "rank_A =
     \<lparr>heat_active = True, alpha = 1, alpha_T = 1/2, alpha_rho = 1, i_picard = 0,
      cells = [1], cell_to_elems = [(1, [0, 1])], elem_to_cell = [1, 1],
      elem_volumes = [1, 1], cell_volumes = [2], cell_fluid_mask = [0],
      cell_temperatures = [140], cell_temperatures_prev = [140],
      cell_densities = [1], cell_densities_prev = [1],
      cell_heat = [0], cell_heat_prev = [0]\<rparr>"

definition rank_B :: CoupledDriver where
  "rank_B =
     \<lparr>heat_active = True, alpha = 1, alpha_T = 1/2, alpha_rho = 1, i_picard = 0,
      cells = [2], cell_to_elems = [(2, [0, 1])], elem_to_cell = [2, 2],
      elem_volumes = [2, 2], cell_volumes = [4], cell_fluid_mask = [0],
      cell_temperatures = [340], cell_temperatures_prev = [340],
      cell_densities = [1], cell_densities_prev = [1],
      cell_heat = [0], cell_heat_prev = [0]\<rparr>"

text \<open>A heat rank before \<^verbatim>\<open>init_mappings\<close>: no cell is known yet.\<close>

definition unmapped_state :: CoupledDriver where
  "unmapped_state =
     \<lparr>heat_active = True, alpha = 1, alpha_T = 1, alpha_rho = 1, i_picard = 0,
      cells = [], cell_to_elems = [], elem_to_cell = [],
      elem_volumes = [], cell_volumes = [], cell_fluid_mask = [],
      cell_temperatures = [], cell_temperatures_prev = [],
      cell_densities = [], cell_densities_prev = [],
      cell_heat = [], cell_heat_prev = []\<rparr>"

text \<open>The neutronics volumes of the scenario's cells: 2 for cell 1 and 4 for cell 2.\<close>

definition scenario_volume :: "CellHandle \<Rightarrow> real" where
  "scenario_volume c = (if c = 1 then 2 else 4)"

text \<open>
  Three processes: rank 0 is a neutronics process, rank 1 the root of the heat group,
  rank 2 a second heat process whose \<^verbatim>\<open>g_sum\<close> happens to hold 4. The
  temperature changes are (3, 0) on rank 1 and (0, 4) on rank 2.
\<close>

definition three_processes :: "process list" where
  "three_processes =
     [\<lparr>state = two_cell_state\<lparr>heat_active := False\<rparr>, heat_comm_rank = - 1, g_sum = Some 0, converged = False\<rparr>,
      \<lparr>state = two_cell_state\<lparr>cell_temperatures := [3, 0], cell_temperatures_prev := [0, 0]\<rparr>,
       heat_comm_rank = 0, g_sum = None, converged = True\<rparr>,
      \<lparr>state = two_cell_state\<lparr>cell_temperatures := [0, 4], cell_temperatures_prev := [0, 0]\<rparr>,
       heat_comm_rank = 1, g_sum = Some 4, converged = False\<rparr>]"

section \<open>Properties\<close>

subsection \<open>Auxiliary facts\<close>

lemma and_then_Inr_iff: "and_then r f = Inr y \<longleftrightarrow> (\<exists>x. r = Inr x \<and> f x = Inr y)"
  by (cases r) auto

lemma vec_at_Inr_iff: "vec_at xs i = Inr v \<longleftrightarrow> (i < length xs \<and> v = xs ! i)"
  by (auto simp: vec_at_def)

lemma vec_put_Inr_iff: "vec_put xs i v = Inr ys \<longleftrightarrow> (i < length xs \<and> ys = xs[i := v])"
  by (auto simp: vec_put_def)

lemma std_copy_self: "std_copy xs xs = Inr xs"
  by (simp add: std_copy_def)

lemma std_copy_nth:
  "std_copy src dst = Inr out \<Longrightarrow> length out = length dst \<and> (\<forall>i < length src. out ! i = src ! i)"
  by (auto simp: std_copy_def nth_append split: if_splits)

lemma xt_zip_nth:
  "xt_zip f xs ys = Inr zs \<Longrightarrow> length xs = length ys \<Longrightarrow> i < length xs \<Longrightarrow> zs ! i = f (xs ! i) (ys ! i)"
  by (auto simp: xt_zip_def)

lemma relax_field_nth:
  assumes "relax_field rm a ip x xp = Inr r" "length x = length xp" "i < length x"
  shows "r ! i = (if a = rm then x ! i / real_of_int (ip + 1) + (1 - 1 / real_of_int (ip + 1)) * xp ! i
                  else a * x ! i + (1 - a) * xp ! i)"
  using assms by (auto simp: relax_field_def Let_def split: if_splits dest: xt_zip_nth)

lemma average_temperatures_length:
  "average_temperatures s et js T = Inr T' \<Longrightarrow> length T' = length T"
  by (induction js arbitrary: T) (auto simp: and_then_Inr_iff vec_put_Inr_iff)

text \<open>No path of the density update assigns \<^verbatim>\<open>cell_densities_prev_\<close>.\<close>

lemma update_density_local_keeps_prev:
  "update_density_local rm relax elem_densities s = Inr s' \<Longrightarrow>
   cell_densities_prev s' = cell_densities_prev s"
  by (auto simp: update_density_local_def and_then_Inr_iff split: if_splits)

lemmas run_simps = std_copy_def vec_at_def vec_put_def map_at_def cell_average_def
  relax_field_def xt_zip_def

subsection \<open>Density update\<close>

text \<open>Without rounding, the update in double arithmetic is \<open>update_density_local\<close>.\<close>

lemma sum_elems_rnd_exact: "sum_elems_rnd (\<lambda>x. x) q V es acc = sum_elems q V es acc"
  by (induction es arbitrary: acc) (auto simp: split_paired_all)

lemma cell_average_rnd_exact: "cell_average_rnd (\<lambda>x. x) q V es = cell_average q V es"
  by (simp add: cell_average_rnd_def cell_average_def sum_elems_rnd_exact)

lemma average_densities_rnd_exact:
  "average_densities_rnd (\<lambda>x. x) s ed js = average_densities s ed js"
proof (induction js)
  case Nil
  show ?case by (rule ext) simp
next
  case (Cons j js)
  show ?case by (rule ext) (simp add: Cons cell_average_rnd_exact cong: if_cong)
qed

lemma relax_field_rnd_exact: "relax_field_rnd (\<lambda>x. x) rm a ip x xp = relax_field rm a ip x xp"
proof -
  have "fixed_blend (\<lambda>x. x) a = (\<lambda>v p. a * v + (1 - a) * p)"
    by (simp add: fun_eq_iff fixed_blend_def)
  moreover have "robbins_monro_blend (\<lambda>x. x) (ip + 1)
      = (\<lambda>v p. v / real_of_int (ip + 1) + (1 - 1 / real_of_int (ip + 1)) * p)"
    by (simp add: fun_eq_iff robbins_monro_blend_def)
  ultimately show ?thesis
    by (simp only: relax_field_rnd_def relax_field_def Let_def)
qed

lemma update_density_local_rnd_exact:
  "update_density_local_rnd (\<lambda>x. x) rm relax ed s = update_density_local rm relax ed s"
  by (simp add: update_density_local_rnd_def update_density_local_def average_densities_rnd_exact
      relax_field_rnd_exact)

text \<open>A number between two consecutive powers of two is rounded on the grid of that binade.\<close>

lemma round_double_binade:
  assumes "2 powr of_int k \<le> \<bar>x\<bar>" and "\<bar>x\<bar> < 2 powr of_int (k + 1)"
  shows "round_double x = of_int (round_even (x / 2 powr of_int (k - 52))) * 2 powr of_int (k - 52)"
proof -
  have "0 < (2::real) powr of_int k"
    by simp
  with assms(1) have pos: "0 < \<bar>x\<bar>"
    by linarith
  with assms have "\<lfloor>log 2 \<bar>x\<bar>\<rfloor> = k"
    by (simp add: floor_log_eq_powr_iff)
  with pos show ?thesis
    by (simp add: round_double_def Let_def)
qed

lemma round_double_tenth: "round_double (1/10) = double_tenth"
  using round_double_binade [of "- 4" "1/10"]
  by (simp add: double_tenth_def round_even_def Let_def powr_minus_divide)

lemma fixed_blend_tenth:
  "fixed_blend round_double double_tenth (21/2) (21/2) = 5910974510923777 / 562949953421312"
proof -
  have 1: "round_double (double_tenth * (21/2)) = 4728779608739021 / 4503599627370496"
    using round_double_binade [of 0 "double_tenth * (21/2)"]
    by (simp add: double_tenth_def round_even_def Let_def powr_minus_divide)
  have 2: "round_double (1 - double_tenth) = 8106479329266893 / 9007199254740992"
    using round_double_binade [of "- 1" "1 - double_tenth"]
    by (simp add: double_tenth_def round_even_def Let_def powr_minus_divide)
  have 3: "round_double (8106479329266893 / 9007199254740992 * (21/2)) = 5319877059831399 / 562949953421312"
    using round_double_binade [of 3 "8106479329266893 / 9007199254740992 * (21/2)"]
    by (simp add: round_even_def Let_def powr_minus_divide)
  have 4: "round_double (4728779608739021 / 4503599627370496 + 5319877059831399 / 562949953421312)
      = 5910974510923777 / 562949953421312"
    using round_double_binade [of 3 "4728779608739021 / 4503599627370496 + 5319877059831399 / 562949953421312"]
    by (simp add: round_even_def Let_def powr_minus_divide)
  show ?thesis
    unfolding fixed_blend_def by (simp only: 1 2 3 4)
qed

lemma average_densities_rnd_length:
  "average_densities_rnd rnd s ed js rho = Inr rho' \<Longrightarrow> length rho' = length rho"
  by (induction js arbitrary: rho) (auto simp: and_then_Inr_iff vec_put_Inr_iff split: if_splits)

lemma average_densities_rnd_mask_defined:
  "average_densities_rnd rnd s ed js rho = Inr rho' \<Longrightarrow> i \<in> set js \<Longrightarrow> i < length (cell_fluid_mask s)"
  by (induction js arbitrary: rho) (auto simp: and_then_Inr_iff vec_at_Inr_iff split: if_splits)

lemma average_densities_rnd_nonfluid:
  "average_densities_rnd rnd s ed js rho = Inr rho' \<Longrightarrow> i < length (cell_fluid_mask s) \<Longrightarrow>
   cell_fluid_mask s ! i \<noteq> 1 \<Longrightarrow> rho' ! i = rho ! i"
proof (induction js arbitrary: rho)
  case Nil
  then show ?case by simp
next
  case (Cons j js)
  show ?case
  proof (cases "j = i")
    case True
    with Cons show ?thesis
      by (auto simp: and_then_Inr_iff vec_at_Inr_iff split: if_splits)
  next
    case False
    with Cons show ?thesis
      by (auto simp: and_then_Inr_iff vec_at_Inr_iff vec_put_Inr_iff split: if_splits)
  qed
qed

lemma relax_field_rnd_nth:
  assumes "relax_field_rnd rnd rm a ip x xp = Inr r" "length x = length xp" "i < length x"
  shows "r ! i = (if a = rm then robbins_monro_blend rnd (ip + 1) (x ! i) (xp ! i)
                  else fixed_blend rnd a (x ! i) (xp ! i))"
  using assms by (auto simp: relax_field_rnd_def Let_def split: if_splits dest: xt_zip_nth)

text \<open>
  C1, as amended. The volume average of step 2 skips a cell whose fluid mask is not 1,
  and an unrelaxed \<^verbatim>\<open>update_density\<close> leaves the density of such a cell as it was. A
  relaxed \<^verbatim>\<open>update_density\<close> replaces it by the relaxation blend, as double arithmetic
  evaluates it, of that density with the cell's entry of \<^verbatim>\<open>cell_densities_prev_\<close>:
  the relaxation is applied to every cell of the array, fluid or not.
\<close>

theorem update_density_nonfluid_blend:
  assumes run: "update_density_local_rnd rnd rm relax elem_densities s = Inr s'"
    and i: "i < length (cells s)" "i < length (cell_densities s)"
    and solid: "cell_fluid_mask s ! i \<noteq> 1"
    and len: "length (cell_densities_prev s) = length (cell_densities s)"
  shows "cell_densities s' ! i =
     (if relax \<and> heat_active s then
        (if alpha_rho s = rm
         then robbins_monro_blend rnd (i_picard s + 1) (cell_densities s ! i) (cell_densities_prev s ! i)
         else fixed_blend rnd (alpha_rho s) (cell_densities s ! i) (cell_densities_prev s ! i))
      else cell_densities s ! i)"
proof (cases "heat_active s")
  case False
  with run show ?thesis by (simp add: update_density_local_rnd_def)
next
  case True
  from run True obtain raw rho where
    raw: "average_densities_rnd rnd s elem_densities [0..<length (cells s)] (cell_densities s) = Inr raw"
    and rho: "(if relax then relax_field_rnd rnd rm (alpha_rho s) (i_picard s) raw (cell_densities_prev s)
               else Inr raw) = Inr rho"
    and s': "s' = s\<lparr>cell_densities := rho\<rparr>"
    by (auto simp: update_density_local_rnd_def and_then_Inr_iff std_copy_self split: if_splits)
  from raw i(1) have m: "i < length (cell_fluid_mask s)"
    by (auto dest: average_densities_rnd_mask_defined [where i = i])
  from raw m solid have keep: "raw ! i = cell_densities s ! i"
    by (rule average_densities_rnd_nonfluid)
  from raw have lraw: "length raw = length (cell_densities s)"
    by (rule average_densities_rnd_length)
  show ?thesis
  proof (cases relax)
    case False
    with rho s' keep True show ?thesis by simp
  next
    case relaxed: True
    with rho have "relax_field_rnd rnd rm (alpha_rho s) (i_picard s) raw (cell_densities_prev s) = Inr rho"
      by simp
    from relax_field_rnd_nth [OF this, of i] lraw len i(2) keep s' relaxed True
    show ?thesis by simp
  qed
qed

text \<open>
  The relaxed update of the solid cell of \<open>solid_double_state\<close>, after
  \<^verbatim>\<open>init_densities\<close> has set its previous density to 10.5.
\<close>

lemma run_double: "update_density_local_rnd round_double (- 1) True [1] (solid_double_state\<lparr>cell_densities_prev := [21/2]\<rparr>)
     = Inr (solid_double_state\<lparr>cell_densities_prev := [21/2],
              cell_densities := [5910974510923777 / 562949953421312]\<rparr>)"
  by (simp add: update_density_local_rnd_def relax_field_rnd_def
      solid_double_state_def std_copy_def vec_at_def xt_zip_def fixed_blend_tenth)
    (simp add: double_tenth_def)

text \<open>The amended C1 on that update.\<close>

theorem update_density_nonfluid_blend_witness:
  "update_density_local_rnd round_double (- 1) True [1] (solid_double_state\<lparr>cell_densities_prev := [21/2]\<rparr>)
     = Inr (solid_double_state\<lparr>cell_densities_prev := [21/2],
              cell_densities := [5910974510923777 / 562949953421312]\<rparr>)
   \<and> cell_fluid_mask solid_double_state ! 0 \<noteq> 1
   \<and> (5910974510923777 / 562949953421312 :: real)
       = fixed_blend round_double (alpha_rho solid_double_state) (21/2) (21/2)"
proof -
  from update_density_nonfluid_blend [OF run_double, of 0] run_double show ?thesis
    by (simp add: solid_double_state_def double_tenth_def)
qed

text \<open>
  C1 as stated fails. After \<^verbatim>\<open>init_densities\<close> the solid cell has density 10.5 and
  previous density 10.5. The first relaxed update with \<open>alpha_rho\<close> the double 0.1
  computes 0.1 * 10.5 + (1.0 - 0.1) * 10.5 in double arithmetic and stores
  10.5 + 2^-49 (10.500000000000002): the density of the non-fluid cell has changed.
\<close>

theorem update_density_nonfluid_counterexample:
  "init_densities_prev solid_double_state
     = Inr (solid_double_state\<lparr>cell_densities_prev := [21/2]\<rparr>)
   \<and> update_density_local_rnd round_double (- 1) True [1] (solid_double_state\<lparr>cell_densities_prev := [21/2]\<rparr>)
     = Inr (solid_double_state\<lparr>cell_densities_prev := [21/2],
              cell_densities := [5910974510923777 / 562949953421312]\<rparr>)
   \<and> cell_fluid_mask solid_double_state ! 0 = 0
   \<and> cell_densities solid_double_state ! 0 = 21/2
   \<and> (5910974510923777 / 562949953421312 :: real) \<noteq> 21/2
   \<and> (5910974510923777 / 562949953421312 :: real) = 21/2 + 1 / 2 ^ 49
   \<and> alpha_rho solid_double_state = round_double (1/10)"
  by (simp add: init_densities_prev_def update_density_local_rnd_def relax_field_rnd_def
      solid_double_state_def std_copy_def vec_at_def xt_zip_def fixed_blend_tenth round_double_tenth)
    (simp add: double_tenth_def)

text \<open>
  C2 fails on the code. A relaxed update of \<open>fluid_cell_state\<close> (current density 2,
  previous density 1, raw average 4, \<open>alpha_rho = 0.5\<close>) leaves
  \<^verbatim>\<open>cell_densities_prev_\<close> at 1 and yields 0.5 * 4 + 0.5 * 1 = 2.5; had the previous
  iterate been overwritten with the current one, the result would be 3.
\<close>

theorem update_density_prev_not_overwritten:
  "update_density_local (- 1) True [4] fluid_cell_state
     = Inr (fluid_cell_state\<lparr>cell_densities := [5/2]\<rparr>)
   \<and> cell_densities fluid_cell_state = [2]
   \<and> cell_densities_prev (fluid_cell_state\<lparr>cell_densities := [5/2]\<rparr>) = [1]"
  by (simp add: update_density_local_def fluid_cell_state_def run_simps)

subsection \<open>Relaxation of the temperature\<close>

text \<open>
  In a relaxed \<^verbatim>\<open>update_temperature\<close> the new cell temperature is the blend of the raw
  value \<open>x\<close> (the volume average, which is what the unrelaxed update stores) with the
  previous iterate \<open>x_prev\<close> (the cell temperature before the call): with a fixed
  coefficient, \<open>alpha_T * x + (1 - alpha_T) * x_prev\<close>, which is \<open>x\<close> for \<open>alpha_T = 1\<close>;
  with the Robbins-Monro selection and \<open>n = i_picard + 1\<close>,
  \<open>x / n + (1 - 1 / n) * x_prev\<close>, which is \<open>x\<close> for \<open>n = 1\<close>.
\<close>

theorem update_temperature_relaxed_blend:
  assumes active: "heat_active s"
    and raw: "update_temperature_local rm False elem_temperatures s = Inr s_raw"
    and rel: "update_temperature_local rm True elem_temperatures s = Inr s_rel"
    and len: "length (cell_temperatures_prev s) = length (cell_temperatures s)"
    and i: "i < length (cell_temperatures s)"
  shows "(alpha_T s \<noteq> rm \<longrightarrow>
            cell_temperatures s_rel ! i
              = alpha_T s * cell_temperatures s_raw ! i + (1 - alpha_T s) * cell_temperatures s ! i)
       \<and> (alpha_T s \<noteq> rm \<and> alpha_T s = 1 \<longrightarrow>
            cell_temperatures s_rel ! i = cell_temperatures s_raw ! i)
       \<and> (alpha_T s = rm \<longrightarrow>
            cell_temperatures s_rel ! i
              = cell_temperatures s_raw ! i / real_of_int (i_picard s + 1)
                + (1 - 1 / real_of_int (i_picard s + 1)) * cell_temperatures s ! i)
       \<and> (alpha_T s = rm \<and> i_picard s + 1 = 1 \<longrightarrow>
            cell_temperatures s_rel ! i = cell_temperatures s_raw ! i)"
proof -
  from raw active obtain x where
    x: "average_temperatures s elem_temperatures [0..<length (cells s)] (cell_temperatures s) = Inr x"
    and s_raw: "cell_temperatures s_raw = x"
    by (auto simp: update_temperature_local_def and_then_Inr_iff)
  from rel active x obtain prev T where
    prev: "std_copy (cell_temperatures s) (cell_temperatures_prev s) = Inr prev"
    and T: "relax_field rm (alpha_T s) (i_picard s) x prev = Inr T"
    and s_rel: "cell_temperatures s_rel = T"
    by (auto simp: update_temperature_local_def and_then_Inr_iff)
  from x have lx: "length x = length (cell_temperatures s)"
    by (rule average_temperatures_length)
  from prev len i have lp: "length prev = length (cell_temperatures s)"
    and pi: "prev ! i = cell_temperatures s ! i"
    by (auto dest: std_copy_nth)
  from T lx lp i have
    "T ! i = (if alpha_T s = rm
              then x ! i / real_of_int (i_picard s + 1) + (1 - 1 / real_of_int (i_picard s + 1)) * prev ! i
              else alpha_T s * x ! i + (1 - alpha_T s) * prev ! i)"
    by (intro relax_field_nth) simp_all
  with pi s_raw s_rel show ?thesis by simp
qed

text \<open>
  The same at \<open>two_cell_state\<close> (temperatures 300 and 500) with raw averages 310 and 520.
  With the fixed \<open>alpha_T = 0.5\<close> the relaxed temperature of the second cell is
  0.5 * 520 + 0.5 * 500 = 510; with the Robbins-Monro sentinel and \<open>i_picard = 2\<close> it is
  520 / 3 + (1 - 1 / 3) * 500.
\<close>

theorem update_temperature_relaxed_blend_witness:
  "update_temperature_local (- 1) False [310, 520] two_cell_state
     = Inr (two_cell_state\<lparr>cell_temperatures := [310, 520]\<rparr>)
   \<and> update_temperature_local (- 1) True [310, 520] two_cell_state
     = Inr (two_cell_state\<lparr>cell_temperatures := [305, 510], cell_temperatures_prev := [300, 500]\<rparr>)
   \<and> alpha_T two_cell_state \<noteq> - 1
   \<and> cell_temperatures
        (two_cell_state\<lparr>cell_temperatures := [305, 510], cell_temperatures_prev := [300, 500]\<rparr>) ! 1
       = alpha_T two_cell_state * cell_temperatures (two_cell_state\<lparr>cell_temperatures := [310, 520]\<rparr>) ! 1
         + (1 - alpha_T two_cell_state) * cell_temperatures two_cell_state ! 1
   \<and> update_temperature_local (- 1) True [310, 520] (two_cell_state\<lparr>alpha_T := - 1, i_picard := 2\<rparr>)
     = Inr (two_cell_state\<lparr>alpha_T := - 1, i_picard := 2,
              cell_temperatures := [910/3, 1520/3], cell_temperatures_prev := [300, 500]\<rparr>)
   \<and> (1520/3 :: real) = 520 / real_of_int (2 + 1) + (1 - 1 / real_of_int (2 + 1)) * 500"
proof -
  have active: "heat_active two_cell_state"
    by (simp add: two_cell_state_def)
  have raw: "update_temperature_local (- 1) False [310, 520] two_cell_state
     = Inr (two_cell_state\<lparr>cell_temperatures := [310, 520]\<rparr>)"
    by (simp add: update_temperature_local_def two_cell_state_def run_simps)
  have rel: "update_temperature_local (- 1) True [310, 520] two_cell_state
     = Inr (two_cell_state\<lparr>cell_temperatures := [305, 510], cell_temperatures_prev := [300, 500]\<rparr>)"
    by (simp add: update_temperature_local_def two_cell_state_def run_simps)
  have ne: "alpha_T two_cell_state \<noteq> - 1"
    by (simp add: two_cell_state_def)
  let ?rm = "two_cell_state\<lparr>alpha_T := - 1, i_picard := 2\<rparr>"
  have active': "heat_active ?rm"
    by (simp add: two_cell_state_def)
  have raw': "update_temperature_local (- 1) False [310, 520] ?rm
     = Inr (?rm\<lparr>cell_temperatures := [310, 520]\<rparr>)"
    by (simp add: update_temperature_local_def two_cell_state_def run_simps)
  have rel': "update_temperature_local (- 1) True [310, 520] ?rm
     = Inr (?rm\<lparr>cell_temperatures := [910/3, 1520/3], cell_temperatures_prev := [300, 500]\<rparr>)"
    by (simp add: update_temperature_local_def two_cell_state_def run_simps)
  from update_temperature_relaxed_blend [OF active raw rel, of 1]
    update_temperature_relaxed_blend [OF active' raw' rel', of 1] ne raw rel rel'
  show ?thesis
    by (simp add: two_cell_state_def)
qed

text \<open>
  C3 fails on the code for the density. A relaxed \<^verbatim>\<open>update_density\<close> of
  \<open>two_cell_state\<close> finds the raw average 1.1 for the fluid cell, whose previous iterate
  (its density before the call) is 0.7; with \<open>alpha_rho = 0.5\<close> the specified blend is
  0.5 * 1.1 + 0.5 * 0.7 = 0.9, but the update stores 0.8, the blend with the 0.5 that
  \<^verbatim>\<open>cell_densities_prev_\<close> still holds.
\<close>

theorem update_density_blend_not_with_previous_iterate:
  "update_density_local (- 1) True [11/10, 15/2] two_cell_state
     = Inr (two_cell_state\<lparr>cell_densities := [4/5, 8]\<rparr>)
   \<and> alpha_rho two_cell_state = 1/2
   \<and> cell_densities two_cell_state ! 0 = 7/10
   \<and> cell_densities_prev two_cell_state ! 0 = 1/2
   \<and> (1/2 * (11/10) + (1 - 1/2) * (7/10) :: real) = 9/10
   \<and> (1/2 * (11/10) + (1 - 1/2) * (1/2) :: real) = 4/5"
  by (simp add: update_density_local_def two_cell_state_def run_simps)

subsection \<open>The end-to-end scenario\<close>

text \<open>
  C4. Two heat ranks own two elements each, in cells 1 (A) and 2 (B), with element
  volumes 1, 1 and 2, 2 and element temperatures 100, 200 and 300, 400; the neutronics
  volumes of the cells are the summed element volumes 2 and 4. An unrelaxed
  \<^verbatim>\<open>update_temperature\<close> stores the local cell averages 150 and 350 and sets the
  field-domain temperatures of A and B to 150 and 350. With \<open>alpha_T = 0.5\<close> and the
  previous iterate 140, 340 the relaxed local values are 145 and 345.
\<close>

theorem scenario_update_temperature:
  assumes "get_volume 1 = 2" and "get_volume 2 = 4" and "rm \<noteq> 1/2"
  shows "update_temperature rm get_volume False [(rank_A, [100, 200]), (rank_B, [300, 400])]
           = Inr ([rank_A\<lparr>cell_temperatures := [150]\<rparr>, rank_B\<lparr>cell_temperatures := [350]\<rparr>],
                  [(1, 150), (2, 350)])
       \<and> update_temperature_ranks rm True [(rank_A, [100, 200]), (rank_B, [300, 400])]
           = Inr [rank_A\<lparr>cell_temperatures := [145], cell_temperatures_prev := [140]\<rparr>,
                  rank_B\<lparr>cell_temperatures := [345], cell_temperatures_prev := [340]\<rparr>]"
  using assms
  by (simp add: update_temperature_def update_temperature_local_def rank_A_def rank_B_def run_simps)

text \<open>C4 with the sentinel - 1 and the volumes of \<open>scenario_volume\<close>.\<close>

theorem scenario_update_temperature_witness:
  "scenario_volume 1 = 2 \<and> scenario_volume 2 = 4 \<and> (- 1 :: real) \<noteq> 1/2
   \<and> update_temperature (- 1) scenario_volume False [(rank_A, [100, 200]), (rank_B, [300, 400])]
           = Inr ([rank_A\<lparr>cell_temperatures := [150]\<rparr>, rank_B\<lparr>cell_temperatures := [350]\<rparr>],
                  [(1, 150), (2, 350)])
   \<and> update_temperature_ranks (- 1) True [(rank_A, [100, 200]), (rank_B, [300, 400])]
           = Inr [rank_A\<lparr>cell_temperatures := [145], cell_temperatures_prev := [140]\<rparr>,
                  rank_B\<lparr>cell_temperatures := [345], cell_temperatures_prev := [340]\<rparr>]"
  using scenario_update_temperature [of scenario_volume "- 1"]
  by (simp add: scenario_volume_def)

text \<open>
  In the relaxed call the values accumulated and set in the field domain are the relaxed
  ones: relaxation precedes step 3.
\<close>

lemma scenario_relaxed_push:
  assumes "get_volume 1 = 2" and "get_volume 2 = 4" and "rm \<noteq> 1/2"
  shows "update_temperature rm get_volume True [(rank_A, [100, 200]), (rank_B, [300, 400])]
           = Inr ([rank_A\<lparr>cell_temperatures := [145], cell_temperatures_prev := [140]\<rparr>,
                  rank_B\<lparr>cell_temperatures := [345], cell_temperatures_prev := [340]\<rparr>],
                  [(1, 145), (2, 345)])"
  using assms
  by (simp add: update_temperature_def update_temperature_local_def rank_A_def rank_B_def run_simps)

subsection \<open>Convergence\<close>

lemma sqrt_25: "sqrt 25 = 5"
  using real_sqrt_abs [of 5] by simp

lemma sqrt_4: "sqrt 4 = 2"
  using real_sqrt_abs [of 2] by simp

lemma fold_max_mem: "fold max xs (a::int) \<in> insert a (set xs)"
  by (induction xs arbitrary: a) (auto simp: max_def)

text \<open>A non-negative \<^verbatim>\<open>heat_root_\<close> is the rank of a process that is rank 0 of the heat group.\<close>

lemma heat_root_is_root:
  assumes "0 \<le> heat_root ps"
  shows "nat (heat_root ps) < length ps \<and> heat_comm_rank (ps ! nat (heat_root ps)) = 0"
proof -
  let ?cs = "map2 (\<lambda>r p. if is_root p then int r else - 1) [0..<length ps] ps"
  have "heat_root ps \<in> insert (- 1) (set ?cs)"
    unfolding heat_root_def by (rule fold_max_mem)
  with assms have "heat_root ps \<in> set ?cs" by auto
  then obtain i where i: "i < length ps"
    and r: "heat_root ps = (if is_root (ps ! i) then int i else - 1)"
    by (auto simp: in_set_conv_nth)
  with assms show ?thesis by (auto simp: is_root_def split: if_splits)
qed

lemma temperature_norm_nth:
  assumes "temperature_norm nrm lowest ps = Inr norms"
  shows "\<exists>terms. local_terms nrm lowest ps = Inr terms \<and> length norms = length ps \<and>
    (\<forall>r < length ps. norms ! r =
       (if heat_active (state (ps ! r)) then
         (case nrm of
            L1 \<Rightarrow> Some (if heat_comm_rank (ps ! r) = 0 then mpi_reduce L1 terms else 0)
          | L2 \<Rightarrow> c_sqrt (if heat_comm_rank (ps ! r) = 0 then Some (mpi_reduce L2 terms) else g_sum (ps ! r))
          | LINF \<Rightarrow> Some (if heat_comm_rank (ps ! r) = 0 then mpi_reduce LINF terms else 0))
       else Some 0))"
  using assms by (auto simp: temperature_norm_def and_then_Inr_iff)

text \<open>The local terms of the L2 norm are sums of squares.\<close>

lemma local_terms_L2_nonneg:
  "local_terms L2 lowest ps = Inr terms \<Longrightarrow> 0 \<le> sum_list terms"
proof (induction ps arbitrary: terms)
  case Nil
  then show ?case by simp
next
  case (Cons p ps)
  show ?case
  proof (cases "heat_active (state p)")
    case False
    with Cons show ?thesis by simp
  next
    case True
    with Cons.prems obtain d xs where
      x: "terms = sum_list (map (\<lambda>x. x * x) d) # xs" and xs: "local_terms L2 lowest ps = Inr xs"
      by (auto simp: and_then_Inr_iff local_term_def)
    have "0 \<le> sum_list (map (\<lambda>x. x * x) d)"
      by (rule sum_list_nonneg) auto
    with Cons.IH [OF xs] x show ?thesis by simp
  qed
qed

lemma sum_squares_zip:
  "sum_list (map (\<lambda>x. x * x) (map2 (\<lambda>t p. t - p) xs ys))
     = (\<Sum>(t, tp)\<leftarrow>zip xs ys. (t - tp)\<^sup>2)" for xs ys :: "real list"
  by (induction xs ys rule: list_induct2') (simp_all add: power2_eq_square)

lemma local_term_L2:
  assumes "length (cell_temperatures s) = length (cell_temperatures_prev s)"
  shows "local_term L2 lowest s
    = Inr (\<Sum>(t, tp)\<leftarrow>zip (cell_temperatures s) (cell_temperatures_prev s). (t - tp)\<^sup>2)"
proof -
  from assms have "local_term L2 lowest s
    = Inr (sum_list (map (\<lambda>x. x * x)
        (map2 (\<lambda>t p. t - p) (cell_temperatures s) (cell_temperatures_prev s))))"
    by (simp add: local_term_def xt_zip_def)
  then show ?thesis by (simp only: sum_squares_zip)
qed

lemma local_terms_L2_sum:
  assumes "local_terms L2 lowest ps = Inr terms"
    and "\<forall>p \<in> set ps. heat_active (state p) \<longrightarrow>
           length (cell_temperatures (state p)) = length (cell_temperatures_prev (state p))"
  shows "sum_list terms
    = (\<Sum>p\<leftarrow>filter (\<lambda>p. heat_active (state p)) ps.
         \<Sum>(t, tp)\<leftarrow>zip (cell_temperatures (state p)) (cell_temperatures_prev (state p)). (t - tp)\<^sup>2)"
  using assms
proof (induction ps arbitrary: terms)
  case Nil
  then show ?case by simp
next
  case (Cons p ps)
  show ?case
  proof (cases "heat_active (state p)")
    case False
    with Cons show ?thesis by simp
  next
    case True
    with Cons.prems obtain x xs where x: "local_term L2 lowest (state p) = Inr x"
      and xs: "local_terms L2 lowest ps = Inr xs" and terms: "terms = x # xs"
      by (auto simp: and_then_Inr_iff)
    from Cons.prems(2) True have
      "length (cell_temperatures (state p)) = length (cell_temperatures_prev (state p))"
      by simp
    with x have "x = (\<Sum>(t, tp)\<leftarrow>zip (cell_temperatures (state p)) (cell_temperatures_prev (state p)). (t - tp)\<^sup>2)"
      by (simp add: local_term_L2)
    moreover from Cons.IH [OF xs] Cons.prems(2) have "sum_list xs
      = (\<Sum>p\<leftarrow>filter (\<lambda>p. heat_active (state p)) ps.
         \<Sum>(t, tp)\<leftarrow>zip (cell_temperatures (state p)) (cell_temperatures_prev (state p)). (t - tp)\<^sup>2)"
      by simp
    ultimately show ?thesis using True terms by simp
  qed
qed

lemma heat_root_three_processes: "heat_root three_processes = 1"
  by (simp add: heat_root_def is_root_def three_processes_def)

lemma local_terms_L1_three_processes: "local_terms L1 0 three_processes = Inr [3, 4]"
  by (simp add: three_processes_def two_cell_state_def local_term_def xt_zip_def)

text \<open>
  C5. When \<^verbatim>\<open>is_converged\<close> returns, it returns the same boolean on every process of the
  global communicator: the comparison, made at the heat root, of the reduced norm (the
  sum, the square root of the sum, or the maximum of the local terms of the heat
  processes) with \<^verbatim>\<open>epsilon_\<close>. What \<^verbatim>\<open>converged\<close> held on the other processes does
  not matter.
\<close>

theorem is_converged_same_on_every_process:
  assumes ok: "is_converged nrm lowest epsilon ps = Inr bs"
    and active: "heat_active (state (ps ! nat (heat_root ps)))"
  shows "\<exists>terms. local_terms nrm lowest ps = Inr terms \<and> length bs = length ps \<and>
    (\<forall>r < length ps. bs ! r =
       ((case nrm of L2 \<Rightarrow> sqrt (mpi_reduce L2 terms) | _ \<Rightarrow> mpi_reduce nrm terms) < epsilon))"
proof -
  from ok obtain norms where norms: "temperature_norm nrm lowest ps = Inr norms"
    and root: "0 \<le> heat_root ps" "nat (heat_root ps) < length ps"
    and bs: "bs = replicate (length ps)
       (map (\<lambda>r. if int r = heat_root ps then c_less (norms ! r) epsilon else converged (ps ! r))
          [0..<length ps] ! nat (heat_root ps))"
    by (auto simp: is_converged_def broadcast_def and_then_Inr_iff Let_def split: if_splits)
  from root have rank0: "heat_comm_rank (ps ! nat (heat_root ps)) = 0"
    by (simp add: heat_root_is_root)
  from temperature_norm_nth [OF norms] obtain terms where
    terms: "local_terms nrm lowest ps = Inr terms"
    and nth: "\<forall>r < length ps. norms ! r =
       (if heat_active (state (ps ! r)) then
         (case nrm of
            L1 \<Rightarrow> Some (if heat_comm_rank (ps ! r) = 0 then mpi_reduce L1 terms else 0)
          | L2 \<Rightarrow> c_sqrt (if heat_comm_rank (ps ! r) = 0 then Some (mpi_reduce L2 terms) else g_sum (ps ! r))
          | LINF \<Rightarrow> Some (if heat_comm_rank (ps ! r) = 0 then mpi_reduce LINF terms else 0))
       else Some 0)"
    by blast
  have sq: "c_sqrt (Some (mpi_reduce L2 terms)) = Some (sqrt (mpi_reduce L2 terms))" if "nrm = L2"
    using that terms by (auto simp: c_sqrt_def mpi_reduce_def dest: local_terms_L2_nonneg)
  from nth root active rank0 sq have
    "norms ! nat (heat_root ps)
       = Some (case nrm of L2 \<Rightarrow> sqrt (mpi_reduce L2 terms) | _ \<Rightarrow> mpi_reduce nrm terms)"
    by (cases nrm) simp_all
  with bs root have "bs = replicate (length ps)
      ((case nrm of L2 \<Rightarrow> sqrt (mpi_reduce L2 terms) | _ \<Rightarrow> mpi_reduce nrm terms) < epsilon)"
    by (simp add: c_less_def)
  with terms show ?thesis by simp
qed

text \<open>
  C5 at \<open>three_processes\<close> with the L1 norm and tolerance 10: the local terms are 3 and 4,
  the heat root (rank 1) finds 7 < 10, and all three processes return true although
  \<^verbatim>\<open>converged\<close> held false on ranks 0 and 2.
\<close>

theorem is_converged_same_on_every_process_witness:
  "is_converged L1 0 10 three_processes = Inr [True, True, True]
   \<and> heat_active (state (three_processes ! nat (heat_root three_processes)))
   \<and> local_terms L1 0 three_processes = Inr [3, 4]
   \<and> [True, True, True] ! 0 = (mpi_reduce L1 [3, 4] < 10)
   \<and> [True, True, True] ! 2 = (mpi_reduce L1 [3, 4] < 10)"
proof -
  have run: "is_converged L1 0 10 three_processes = Inr [True, True, True]"
    by (simp add: is_converged_def broadcast_def temperature_norm_def heat_root_three_processes
        local_terms_L1_three_processes mpi_reduce_def c_less_def)
      (simp add: three_processes_def two_cell_state_def mpi_reduce_def c_less_def)
  have active: "heat_active (state (three_processes ! nat (heat_root three_processes)))"
    by (simp add: heat_root_three_processes) (simp add: three_processes_def two_cell_state_def)
  from is_converged_same_on_every_process [OF run active] run active show ?thesis
    by (simp add: local_terms_L1_three_processes mpi_reduce_def)
qed

text \<open>
  With the L2 norm, the value \<^verbatim>\<open>temperature_norm\<close> returns at the root of the heat group
  is the square root of the sum, over all heat-active processes, of the squared
  differences between current and previous cell temperatures (the arrays of a process
  having equal lengths).
\<close>

lemma temperature_norm_L2_root_value:
  assumes ok: "temperature_norm L2 lowest ps = Inr norms"
    and r: "r < length ps"
    and active: "heat_active (state (ps ! r))"
    and root: "heat_comm_rank (ps ! r) = 0"
    and lockstep: "\<forall>p \<in> set ps. heat_active (state p) \<longrightarrow>
           length (cell_temperatures (state p)) = length (cell_temperatures_prev (state p))"
  shows "norms ! r = Some (sqrt (\<Sum>p\<leftarrow>filter (\<lambda>p. heat_active (state p)) ps.
               \<Sum>(t, tp)\<leftarrow>zip (cell_temperatures (state p)) (cell_temperatures_prev (state p)). (t - tp)\<^sup>2))"
proof -
  from temperature_norm_nth [OF ok] obtain terms where
    terms: "local_terms L2 lowest ps = Inr terms"
    and nth: "\<forall>r < length ps. norms ! r =
       (if heat_active (state (ps ! r)) then
          c_sqrt (if heat_comm_rank (ps ! r) = 0 then Some (mpi_reduce L2 terms) else g_sum (ps ! r))
        else Some 0)"
    by auto
  from nth r active root have "norms ! r = c_sqrt (Some (sum_list terms))"
    by (simp add: mpi_reduce_def)
  moreover from terms have "c_sqrt (Some (sum_list terms)) = Some (sqrt (sum_list terms))"
    by (auto simp: c_sqrt_def dest: local_terms_L2_nonneg)
  ultimately show ?thesis
    using local_terms_L2_sum [OF terms lockstep] by simp
qed

text \<open>
  C6 fails on the code in its last clause: the square root is not taken at the root
  only. On \<open>three_processes\<close> the heat root (rank 1) returns sqrt (3 * 3 + 4 * 4) = 5, as
  the claim says; rank 2, which is rank 1 of the heat group, declares \<^verbatim>\<open>g_sum\<close> without
  a value, is not written by the reduction, and returns the square root 2 of the 4 its
  \<^verbatim>\<open>g_sum\<close> held, where the claim (and the L1 and LINF branches, which return the
  initialised \<^verbatim>\<open>tnorm\<close>) leaves 0.
\<close>

theorem temperature_norm_L2_sqrt_on_every_rank:
  "temperature_norm L2 0 three_processes = Inr [Some 0, Some 5, Some 2]
   \<and> temperature_norm_L2_spec 0 three_processes = Inr [Some 0, Some 5, Some 0]
   \<and> heat_comm_rank (three_processes ! 2) = 1
   \<and> g_sum (three_processes ! 2) = Some 4"
  by (simp add: temperature_norm_def temperature_norm_L2_spec_def three_processes_def two_cell_state_def
      local_term_def xt_zip_def mpi_reduce_def c_sqrt_def sqrt_25 sqrt_4)

subsection \<open>Mappings\<close>

lemma map_modify_keys: "fst ` set (map_modify c d f m) = insert c (fst ` set m)"
proof (induction m)
  case Nil
  then show ?case by simp
next
  case (Cons kv m)
  obtain k v where kv: "kv = (k, v)" by (cases kv)
  show ?case
  proof (cases "c = k \<or> c < k")
    case True
    with kv show ?thesis by auto
  next
    case False
    with kv have "fst ` set (map_modify c d f (kv # m)) = insert k (fst ` set (map_modify c d f m))"
      by simp
    with Cons.IH kv show ?thesis by auto
  qed
qed

lemma map_modify_sorted:
  "sorted_wrt (<) (map fst m) \<Longrightarrow> sorted_wrt (<) (map fst (map_modify c d f m))"
proof (induction m)
  case Nil
  then show ?case by simp
next
  case (Cons kv m)
  obtain k v where kv: "kv = (k, v)" by (cases kv)
  show ?case
  proof (cases "c = k \<or> c < k")
    case True
    with Cons.prems kv show ?thesis by auto
  next
    case False
    from Cons.prems kv have above: "\<forall>x \<in> fst ` set m. k < x" and tl: "sorted_wrt (<) (map fst m)"
      by auto
    from False above have "\<forall>x \<in> fst ` set (map_modify c d f m). k < x"
      by (auto simp: map_modify_keys)
    with False kv Cons.IH [OF tl] show ?thesis by auto
  qed
qed

lemma map_of_below_head:
  assumes "sorted_wrt (<) (map fst ((k, v) # m))" and "(c::CellHandle) < k"
  shows "map_of ((k, v) # m) c = None"
proof -
  from assms have "c \<noteq> k" and "\<forall>x \<in> fst ` set m. c < x"
    by auto
  then have "c \<notin> fst ` set ((k, v) # m)" by auto
  then show ?thesis by (rule map_of_eq_None_iff [THEN iffD2])
qed

lemma map_modify_map_of:
  "sorted_wrt (<) (map fst m) \<Longrightarrow>
   map_of (map_modify c d f m) k
     = (if k = c then Some (f (case map_of m c of None \<Rightarrow> d | Some v \<Rightarrow> v)) else map_of m k)"
proof (induction m)
  case Nil
  then show ?case by simp
next
  case (Cons kv m)
  obtain k0 v0 where kv: "kv = (k0, v0)" by (cases kv)
  show ?case
  proof (cases "c = k0")
    case True
    with kv show ?thesis by simp
  next
    case False
    show ?thesis
    proof (cases "c < k0")
      case True
      with Cons.prems kv have "map_of (kv # m) c = None"
        by (simp only: map_of_below_head)
      with True False kv show ?thesis by auto
    next
      case ge: False
      with False Cons kv show ?thesis by auto
    qed
  qed
qed

lemma invert_elems_inv:
  "sorted_wrt (<) (map fst m) \<Longrightarrow>
   sorted_wrt (<) (map fst (invert_elems e2c es m))
   \<and> set (map fst (invert_elems e2c es m)) = set (map fst m) \<union> (\<lambda>e. e2c ! e) ` set es
   \<and> (\<forall>c. map_entry (invert_elems e2c es m) c = map_entry m c @ filter (\<lambda>e. e2c ! e = c) es)"
proof (induction es arbitrary: m)
  case Nil
  then show ?case by simp
next
  case (Cons e es)
  let ?m = "map_modify (e2c ! e) [] (\<lambda>v. v @ [e]) m"
  from Cons.prems have sorted: "sorted_wrt (<) (map fst ?m)"
    by (rule map_modify_sorted)
  have keys: "set (map fst ?m) = insert (e2c ! e) (set (map fst m))"
    by (simp add: map_modify_keys)
  from Cons.prems have ent: "map_entry ?m c = (if c = e2c ! e then map_entry m c @ [e] else map_entry m c)" for c
    by (simp add: map_entry_def map_modify_map_of)
  from Cons.IH [OF sorted] keys ent show ?case
    by auto
qed

lemma invert_elems_empty:
  "sorted_wrt (<) (map fst (invert_elems e2c [0..<length e2c] []))
   \<and> set (map fst (invert_elems e2c [0..<length e2c] [])) = set e2c
   \<and> (\<forall>c. map_entry (invert_elems e2c [0..<length e2c] []) c = filter (\<lambda>e. e2c ! e = c) [0..<length e2c])"
proof -
  have "(\<lambda>e. e2c ! e) ` set [0..<length e2c] = set e2c"
    by (auto simp: in_set_conv_nth)
  with invert_elems_inv [of "[]" e2c "[0..<length e2c]"] show ?thesis
    by (simp add: map_entry_def)
qed

lemma init_mappings_other_ranks:
  "init_mappings find_cells centroid_local neutronics_root me heat_ranks s = Inr s' \<Longrightarrow>
   me \<notin> set heat_ranks \<Longrightarrow> me \<noteq> neutronics_root \<Longrightarrow> s' = s"
  by (induction heat_ranks arbitrary: s) (auto split: option.splits)

lemma init_mappings_own_rank:
  "init_mappings find_cells centroid_local neutronics_root me heat_ranks s = Inr s' \<Longrightarrow>
   me \<in> set heat_ranks \<Longrightarrow> distinct heat_ranks \<Longrightarrow> me \<noteq> neutronics_root \<Longrightarrow>
   cell_to_elems s = [] \<Longrightarrow> cells s = [] \<Longrightarrow>
   find_cells (centroid_local me) = Some (elem_to_cell s')
   \<and> cell_to_elems s' = invert_elems (elem_to_cell s') [0..<length (elem_to_cell s')] []
   \<and> cells s' = map fst (cell_to_elems s')"
proof (induction heat_ranks arbitrary: s)
  case Nil
  then show ?case by simp
next
  case (Cons hr hrs)
  from Cons.prems(1) obtain m where m: "find_cells (centroid_local hr) = Some m"
    by (auto split: option.splits)
  show ?case
  proof (cases "hr = me")
    case True
    let ?s2 = "s\<lparr>elem_to_cell := m, cell_to_elems := invert_elems m [0..<length m] [],
                 cells := map fst (invert_elems m [0..<length m] [])\<rparr>"
    from Cons.prems m True have run: "init_mappings find_cells centroid_local neutronics_root me hrs ?s2 = Inr s'"
      by (simp add: Let_def)
    from Cons.prems(3) True have "me \<notin> set hrs" by simp
    from init_mappings_other_ranks [OF run this Cons.prems(4)] have "s' = ?s2" .
    with m True show ?thesis by simp
  next
    case False
    with Cons.prems m have run: "init_mappings find_cells centroid_local neutronics_root me hrs s = Inr s'"
      by (simp add: Let_def)
    from False Cons.prems have "me \<in> set hrs" "distinct hrs" by auto
    from Cons.IH [OF run this Cons.prems(4,5,6)] show ?thesis .
  qed
qed

text \<open>
  C7. On a heat rank (a rank listed once in \<^verbatim>\<open>heat_ranks_\<close> that is not the neutronics
  root), starting from an empty map and an empty cell list, \<^verbatim>\<open>init_mappings\<close> leaves
  the inverse of the element-to-cell map: element \<open>e\<close> is in \<^verbatim>\<open>cell_to_elems_[c]\<close> if and
  only if \<^verbatim>\<open>elem_to_cell_[e] = c\<close>; every local element is in the list of exactly one
  cell, once; and \<^verbatim>\<open>cells_\<close> holds, without repetition, exactly the cells that own at
  least one local element.
\<close>

theorem init_mappings_inverts:
  assumes run: "init_mappings find_cells centroid_local neutronics_root me heat_ranks s = Inr s'"
    and me: "me \<in> set heat_ranks" "distinct heat_ranks" "me \<noteq> neutronics_root"
    and empty: "cell_to_elems s = []" "cells s = []"
  shows "(\<forall>e c. e \<in> set (map_entry (cell_to_elems s') c)
            \<longleftrightarrow> e < length (elem_to_cell s') \<and> elem_to_cell s' ! e = c)
       \<and> (\<forall>e < length (elem_to_cell s'). \<exists>!c. e \<in> set (map_entry (cell_to_elems s') c))
       \<and> (\<forall>c. distinct (map_entry (cell_to_elems s') c))
       \<and> distinct (cells s')
       \<and> set (cells s') = {c. \<exists>e < length (elem_to_cell s'). elem_to_cell s' ! e = c}
       \<and> set (cells s') = {c. map_entry (cell_to_elems s') c \<noteq> []}"
proof -
  let ?e2c = "elem_to_cell s'"
  from init_mappings_own_rank [OF run me empty] have
    c2e: "cell_to_elems s' = invert_elems ?e2c [0..<length ?e2c] []"
    and cs: "cells s' = map fst (cell_to_elems s')"
    by simp_all
  from invert_elems_empty [of ?e2c] c2e have
    sorted: "sorted_wrt (<) (map fst (cell_to_elems s'))"
    and keys: "set (map fst (cell_to_elems s')) = set ?e2c"
    and ent: "\<And>c. map_entry (cell_to_elems s') c = filter (\<lambda>e. ?e2c ! e = c) [0..<length ?e2c]"
    by simp_all
  have 1: "\<forall>e c. e \<in> set (map_entry (cell_to_elems s') c) \<longleftrightarrow> e < length ?e2c \<and> ?e2c ! e = c"
    by (auto simp: ent)
  then have 2: "\<forall>e < length ?e2c. \<exists>!c. e \<in> set (map_entry (cell_to_elems s') c)"
    by auto
  have 3: "\<forall>c. distinct (map_entry (cell_to_elems s') c)"
    by (simp add: ent)
  from sorted cs have 4: "distinct (cells s')"
    by (simp add: strict_sorted_iff)
  from keys cs have 5: "set (cells s') = {c. \<exists>e < length ?e2c. ?e2c ! e = c}"
    by (auto simp: in_set_conv_nth)
  have 6: "{c. \<exists>e < length ?e2c. ?e2c ! e = c} = {c. map_entry (cell_to_elems s') c \<noteq> []}"
    by (auto simp: ent filter_empty_conv)
  from 1 2 3 4 5 6 show ?thesis by simp
qed

text \<open>
  C7 on rank 2 of the heat ranks 1 and 2, with the neutronics root at rank 0: the three
  elements of rank 2 lie in cells 9, 7 and 9.
\<close>

theorem init_mappings_inverts_witness:
  "init_mappings Some (\<lambda>r. if r = 2 then [9, 7, 9] else [7]) 0 2 [1, 2] unmapped_state
     = Inr (unmapped_state\<lparr>elem_to_cell := [9, 7, 9],
              cell_to_elems := [(7, [1]), (9, [0, 2])], cells := [7, 9]\<rparr>)
   \<and> (2::int) \<in> set [1, 2] \<and> distinct [1, 2 :: int] \<and> (2::int) \<noteq> 0
   \<and> cell_to_elems unmapped_state = [] \<and> cells unmapped_state = []
   \<and> distinct [7, 9 :: CellHandle]
   \<and> set [7, 9 :: CellHandle] = {c. map_entry [(7, [1]), (9, [0, 2 :: nat])] c \<noteq> []}"
proof -
  have run: "init_mappings Some (\<lambda>r. if r = 2 then [9, 7, 9] else [7]) 0 2 [1, 2] unmapped_state
     = Inr (unmapped_state\<lparr>elem_to_cell := [9, 7, 9],
              cell_to_elems := [(7, [1]), (9, [0, 2])], cells := [7, 9]\<rparr>)"
    by (simp add: unmapped_state_def Let_def)
  have empty: "cell_to_elems unmapped_state = []" "cells unmapped_state = []"
    by (simp_all add: unmapped_state_def)
  have me: "(2::int) \<in> set [1, 2]" "distinct [1, 2 :: int]" "(2::int) \<noteq> 0"
    by simp_all
  note all = init_mappings_inverts [OF run me empty]
  note no_repetition = all [THEN conjunct2, THEN conjunct2, THEN conjunct2, THEN conjunct1]
  note owners = all [THEN conjunct2, THEN conjunct2, THEN conjunct2, THEN conjunct2, THEN conjunct2]
  from no_repetition owners run me empty show ?thesis
    by simp
qed

subsection \<open>Validation of the relaxation selectors\<close>

lemma set_alpha_cases:
  "set_alpha rm node a =
     (if fixed_outside_unit node then Inl ContractViolation
      else Inr (case node of None \<Rightarrow> a | Some (t, d) \<Rightarrow> if t = ''robbins-monro'' then rm else d))"
  by (auto simp: set_alpha_def fixed_outside_unit_def split: option.splits)

text \<open>
  C8. The constructor's three \<^verbatim>\<open>set_alpha\<close> calls fail (a failed \<^verbatim>\<open>Expects\<close>, so that no
  driver is constructed and \<^verbatim>\<open>execute\<close> never starts its loop) if and only if one of the
  three selectors (alpha, alpha_T, alpha_rho) is a fixed numeric coefficient outside
  (0, 1]; a selector that is absent, is the text robbins-monro, or is a fixed coefficient
  inside (0, 1] is accepted.
\<close>

theorem invalid_alpha_aborts_construction:
  "((\<exists>err. set_alphas rm coup_node s = Inl err) \<longleftrightarrow>
      fixed_outside_unit (alpha_node coup_node) \<or> fixed_outside_unit (alpha_T_node coup_node)
      \<or> fixed_outside_unit (alpha_rho_node coup_node))
   \<and> (fixed_outside_unit node \<longrightarrow> set_alpha rm node a = Inl ContractViolation)
   \<and> (\<not> fixed_outside_unit node \<longrightarrow> (\<exists>a'. set_alpha rm node a = Inr a'))"
  by (simp add: set_alphas_def set_alpha_cases)

text \<open>
  C8 for a configuration whose alpha_T is 1.5, and for the accepted selectors
  robbins-monro and 1.0.
\<close>

theorem invalid_alpha_aborts_construction_witness:
  "fixed_outside_unit (Some (''1.5'', 3/2))
   \<and> set_alpha (- 1) (Some (''1.5'', 3/2)) 1 = Inl ContractViolation
   \<and> set_alphas (- 1) \<lparr>alpha_node = Some (''0.5'', 1/2), alpha_T_node = Some (''1.5'', 3/2),
        alpha_rho_node = None\<rparr> unmapped_state = Inl ContractViolation
   \<and> \<not> fixed_outside_unit (Some (''robbins-monro'', 0))
   \<and> set_alpha (- 1) (Some (''robbins-monro'', 0)) 1 = Inr (- 1)
   \<and> \<not> fixed_outside_unit (Some (''1.0'', 1))
   \<and> set_alpha (- 1) (Some (''1.0'', 1)) (1/2) = Inr 1"
  using invalid_alpha_aborts_construction [of "- 1"
      "\<lparr>alpha_node = Some (''0.5'', 1/2), alpha_T_node = Some (''1.5'', 3/2), alpha_rho_node = None\<rparr>"
      unmapped_state "Some (''1.5'', 3/2)" 1]
    invalid_alpha_aborts_construction [of "- 1"
      "\<lparr>alpha_node = None, alpha_T_node = None, alpha_rho_node = None\<rparr>"
      unmapped_state "Some (''robbins-monro'', 0)" 1]
  by (simp add: fixed_outside_unit_def set_alpha_def set_alphas_def unmapped_state_def)

subsection \<open>Applying the heat source\<close>

text \<open>Entered with an index at or past the number of cells, the loop makes no call.\<close>

lemma set_heat_source_cells_past_end:
  "length (cells s) \<le> i \<Longrightarrow> set_heat_source_cells f s i calls = Inr calls"
  by simp

lemma set_heat_source_elems_ok:
  "i < length (cell_heat s) \<Longrightarrow> \<forall>e h. f e h = 0 \<Longrightarrow>
   set_heat_source_elems f s i es calls = Inr (calls @ map (\<lambda>e. (e, cell_heat s ! i)) es)"
  by (induction es arbitrary: calls) (simp_all add: vec_at_def)


text \<open>
  Entered at index 0, with every cell a key of the map, a heat source entry for every
  cell and a solver that accepts every call, the loop makes the calls of
  \<open>heat_source_calls\<close>.
\<close>

lemma set_heat_source_cells_from:
  assumes ok: "\<forall>e h. f e h = 0"
    and len: "length (cells s) \<le> length (cell_heat s)"
    and keys: "\<forall>c \<in> set (cells s). map_of (cell_to_elems s) c \<noteq> None"
  shows "set_heat_source_cells f s i calls
     = Inr (calls @ concat (map (\<lambda>j. map (\<lambda>e. (e, cell_heat s ! j)) (map_entry (cell_to_elems s) (cells s ! j)))
                              [i..<length (cells s)]))"
  using assms
proof (induction f s i calls rule: set_heat_source_cells.induct)
  case (1 f s i calls)
  show ?case
  proof (cases "i < length (cells s)")
    case False
    then show ?thesis by simp
  next
    case True
    with "1.prems" obtain es where es: "map_of (cell_to_elems s) (cells s ! i) = Some es"
      by force
    let ?calls = "calls @ map (\<lambda>e. (e, cell_heat s ! i)) es"
    from True "1.prems" have elems: "set_heat_source_elems f s i es calls = Inr ?calls"
      by (intro set_heat_source_elems_ok) auto
    from True es have at: "vec_at (cells s) i = Inr (cells s ! i)"
      "map_at (cell_to_elems s) (cells s ! i) = Inr es"
      by (simp_all add: vec_at_def map_at_def)
    from "1.IH" [OF True "1.prems", of ?calls] have
      "set_heat_source_cells f s (Suc i) ?calls
         = Inr (?calls @ concat (map (\<lambda>j. map (\<lambda>e. (e, cell_heat s ! j)) (map_entry (cell_to_elems s) (cells s ! j)))
                              [Suc i..<length (cells s)]))" .
    moreover from True have "[i..<length (cells s)] = i # [Suc i..<length (cells s)]"
      by (simp add: upt_conv_Cons)
    moreover have "set_heat_source_cells f s i calls = set_heat_source_cells f s (Suc i) ?calls"
      using True at elems by (subst set_heat_source_cells.simps) simp
    ultimately show ?thesis using es by (simp add: map_entry_def)
  qed
qed


text \<open>
  C9 fails on the code. On \<open>solid_cell_state\<close> (one cell, whose element 0 should receive
  the heat source 5) the application loop entered with its uninitialised index holding
  1 makes no call at all; entered at 0 it makes the one call the claim describes.
\<close>

theorem update_heat_source_skips_cells:
  "update_heat_source (- 1) (\<lambda>e h. 0) 1 False solid_cell_state = Inr (solid_cell_state, [])
   \<and> heat_source_calls solid_cell_state = [(0, 5)]
   \<and> update_heat_source (- 1) (\<lambda>e h. 0) 0 False solid_cell_state = Inr (solid_cell_state, [(0, 5)])"
  by (simp add: update_heat_source_def heat_source_calls_def map_entry_def solid_cell_state_def run_simps)

subsection \<open>ProcInfo\<close>

text \<open>
  C10. Constructing a ProcInfo from \<^verbatim>\<open>MPI_COMM_NULL\<close> makes no MPI query and leaves
  every field at its default (comm = MPI_COMM_NULL, group = MPI_GROUP_NULL, size = 0,
  rank = MPI_PROC_NULL); for every other communicator the constructor sets rank and size
  to the communicator's rank and size.
\<close>

theorem ProcInfo_ctor_null_and_nonnull:
  "ProcInfo_ctor env (MPI_COMM_NULL env) = (ProcInfo_default env, [])
   \<and> comm (ProcInfo_default env) = MPI_COMM_NULL env
   \<and> group (ProcInfo_default env) = MPI_GROUP_NULL env
   \<and> psize (ProcInfo_default env) = 0
   \<and> rank (ProcInfo_default env) = MPI_PROC_NULL env
   \<and> (c \<noteq> MPI_COMM_NULL env \<longrightarrow>
        rank (fst (ProcInfo_ctor env c)) = MPI_Comm_rank env c
      \<and> psize (fst (ProcInfo_ctor env c)) = MPI_Comm_size env c
      \<and> comm (fst (ProcInfo_ctor env c)) = c)"
  by (simp add: ProcInfo_ctor_def ProcInfo_default_def)

theorem ProcInfo_ctor_null_and_nonnull_witness:
  "(5::int) \<noteq> 0
   \<and> rank (fst (ProcInfo_ctor \<lparr>MPI_COMM_NULL = 0, MPI_GROUP_NULL = 0, MPI_PROC_NULL = -1,
        MPI_Comm_group = (\<lambda>c. c + 100), MPI_Comm_rank = (\<lambda>c. 3), MPI_Comm_size = (\<lambda>c. 4)\<rparr> 5)) = 3
   \<and> psize (fst (ProcInfo_ctor \<lparr>MPI_COMM_NULL = 0, MPI_GROUP_NULL = 0, MPI_PROC_NULL = -1,
        MPI_Comm_group = (\<lambda>c. c + 100), MPI_Comm_rank = (\<lambda>c. 3), MPI_Comm_size = (\<lambda>c. 4)\<rparr> 5)) = 4"
  using ProcInfo_ctor_null_and_nonnull
    [of "\<lparr>MPI_COMM_NULL = 0, MPI_GROUP_NULL = 0, MPI_PROC_NULL = -1,
        MPI_Comm_group = (\<lambda>c. c + 100), MPI_Comm_rank = (\<lambda>c. 3), MPI_Comm_size = (\<lambda>c. 4)\<rparr>" 5]
  by simp

end
